theory Spec2Isabelle
  imports Complex_Main
begin

section \<open>Tensors, failures and the layers of the tensor library\<close>

text \<open>
  The model of \<^verbatim>\<open>conv_net.py\<close>: a convolutional sequence-to-sequence network made of
  an \<^verbatim>\<open>Encoder\<close>, a \<^verbatim>\<open>Decoder\<close> with attention and the wrapper \<^verbatim>\<open>Seq2Seq\<close>.

  A tensor of rank three is a list of lists of lists; the outermost list is the batch.
  A batch of token ids is a list of rows of Python integers. A tensor is rectangular, so
  the size of an axis is the length of every list on that axis; an empty batch therefore
  carries no sequence length, and every statement that speaks of a sequence length
  is about a batch with at least one row.

  Scalars are real numbers: the arithmetic of the network is taken exactly, rounding of
  the floating-point formats is outside the model.

  Every exception that the source can raise on data it is given is a value of
  \<open>error\<close>. The shape checks of the tensor library that cannot fail for the
  parameters the constructors build and for inputs of the documented dimensions are
  hypotheses of the theorems (the predicates \<open>shape2\<close>, \<open>shape3\<close>,
  \<open>wf_encoder\<close>, \<open>wf_decoder\<close>) and not branches of the model.

  Two limits of the representation follow, and the theorems stay inside them. The sums,
  the batched matrix product and the concatenation pair the elements of their two
  arguments (\<open>map2\<close>): they are the operations of the library when the paired axes have
  the same size, where the library would broadcast an axis of size 1 and refuse any
  other mismatch; so the theorems about the decoder give the target batch and the two
  encoder outputs one batch size. And a matrix without rows carries no row length, so
  the transpose of a matrix with rows of length 0 has lost the number of those rows:
  with \<open>emb_dim = 0\<close> the attention energies of the model would have no entries, where
  the library computes rows of zeros; the theorems take \<open>emb_dim \<ge> 1\<close> and
  \<open>hid_dim \<ge> 1\<close>, which is a part of \<open>wf_encoder\<close> and \<open>wf_decoder\<close>.
\<close>

type_synonym tensor3 = "real list list list"

datatype error = AssertionError | IndexError | RuntimeError | UnboundLocalError

fun traverse :: "('a \<Rightarrow> error + 'b) \<Rightarrow> 'a list \<Rightarrow> error + 'b list" where
  "traverse f [] = Inr []"
| "traverse f (x # xs) =
     (case f x of Inl e \<Rightarrow> Inl e
      | Inr y \<Rightarrow> (case traverse f xs of Inl e \<Rightarrow> Inl e | Inr ys \<Rightarrow> Inr (y # ys)))"

definition shape2 :: "nat \<Rightarrow> nat \<Rightarrow> 'a list list \<Rightarrow> bool" where
  "shape2 n m x = (length x = n \<and> list_all (\<lambda>r. length r = m) x)"

definition shape3 :: "nat \<Rightarrow> nat \<Rightarrow> nat \<Rightarrow> 'a list list list \<Rightarrow> bool" where
  "shape3 b n m x = (length x = b \<and> list_all (shape2 n m) x)"

subsection \<open>\<^verbatim>\<open>nn.Embedding\<close>\<close>

text \<open>A lookup with an index outside the table raises \<^verbatim>\<open>IndexError\<close>.\<close>

definition embedding_row :: "real list list \<Rightarrow> int \<Rightarrow> error + real list" where
  "embedding_row table i =
     (if 0 \<le> i \<and> i < int (length table) then Inr (table ! nat i) else Inl IndexError)"

definition embedding :: "real list list \<Rightarrow> int list list \<Rightarrow> error + tensor3" where
  "embedding table idx = traverse (traverse (embedding_row table)) idx"

subsection \<open>\<^verbatim>\<open>nn.Linear\<close>, \<^verbatim>\<open>permute(0, 2, 1)\<close>, sums and scaling\<close>

record nn_linear =
  lin_weight :: "real list list"
  lin_bias :: "real list"

definition dot :: "real list \<Rightarrow> real list \<Rightarrow> real" where
  "dot x y = sum_list (map2 (*) x y)"

definition linear_vec :: "nn_linear \<Rightarrow> real list \<Rightarrow> real list" where
  "linear_vec l x = map2 (\<lambda>w b. dot x w + b) (lin_weight l) (lin_bias l)"

definition linear_fwd :: "nn_linear \<Rightarrow> tensor3 \<Rightarrow> tensor3" where
  "linear_fwd l x = map (map (linear_vec l)) x"

definition transpose_m :: "'a list list \<Rightarrow> 'a list list" where
  "transpose_m m =
     (case m of [] \<Rightarrow> [] | r # _ \<Rightarrow> map (\<lambda>j. map (\<lambda>row. row ! j) m) [0..<length r])"

definition permute021 :: "tensor3 \<Rightarrow> tensor3" where
  "permute021 x = map transpose_m x"

definition add3 :: "tensor3 \<Rightarrow> tensor3 \<Rightarrow> tensor3" where
  "add3 x y = map2 (map2 (map2 (+))) x y"

definition mul_scalar :: "tensor3 \<Rightarrow> real \<Rightarrow> tensor3" where
  "mul_scalar x s = map (map (map (\<lambda>v. v * s))) x"

subsection \<open>\<^verbatim>\<open>nn.Conv1d\<close>\<close>

text \<open>
  Stride and dilation are 1. The input of one batch element is channel-first,
  \<open>[channels][length]\<close>; it is padded with \<open>conv_padding\<close> zeros on both sides. The
  library refuses an input whose padded length is smaller than the kernel.
\<close>

record nn_conv1d =
  conv_weight :: "real list list list"
  conv_bias :: "real list"
  conv_kernel_size :: nat
  conv_padding :: nat

definition seq_len :: "real list list \<Rightarrow> nat" where
  "seq_len x = (case x of [] \<Rightarrow> 0 | r # _ \<Rightarrow> length r)"

definition conv_at :: "real list list \<Rightarrow> real list list \<Rightarrow> nat \<Rightarrow> real" where
  "conv_at w x t = sum_list (map2 (\<lambda>wc xc. dot wc (drop t xc)) w x)"

definition conv1d_apply :: "nn_conv1d \<Rightarrow> real list list \<Rightarrow> real list list" where
  "conv1d_apply c x =
     (let p = conv_padding c;
          xp = map (\<lambda>r. replicate p 0 @ r @ replicate p 0) x;
          n = seq_len x + 2 * p + 1 - conv_kernel_size c
      in map2 (\<lambda>w b. map (\<lambda>t. conv_at w xp t + b) [0..<n]) (conv_weight c) (conv_bias c))"

definition conv1d_seq :: "nn_conv1d \<Rightarrow> real list list \<Rightarrow> error + real list list" where
  "conv1d_seq c x =
     (if seq_len x + 2 * conv_padding c < conv_kernel_size c then Inl RuntimeError
      else Inr (conv1d_apply c x))"

definition conv1d :: "nn_conv1d \<Rightarrow> tensor3 \<Rightarrow> error + tensor3" where
  "conv1d c x = traverse (conv1d_seq c) x"

subsection \<open>\<^verbatim>\<open>F.glu(_, dim=1)\<close>, \<^verbatim>\<open>F.softmax(_, dim=2)\<close>, \<^verbatim>\<open>torch.matmul\<close>\<close>

definition sigmoid :: "real \<Rightarrow> real" where
  "sigmoid z = 1 / (1 + exp (- z))"

definition glu_apply :: "real list list \<Rightarrow> real list list" where
  "glu_apply x =
     map2 (map2 (\<lambda>a b. a * sigmoid b)) (take (length x div 2) x) (drop (length x div 2) x)"

definition glu_seq :: "real list list \<Rightarrow> error + real list list" where
  "glu_seq x = (if odd (length x) then Inl RuntimeError else Inr (glu_apply x))"

definition glu_dim1 :: "tensor3 \<Rightarrow> error + tensor3" where
  "glu_dim1 x = traverse glu_seq x"

definition softmax :: "real list \<Rightarrow> real list" where
  "softmax xs = map (\<lambda>x. exp x / sum_list (map exp xs)) xs"

definition softmax_dim2 :: "tensor3 \<Rightarrow> tensor3" where
  "softmax_dim2 x = map (map softmax) x"

definition matmul2 :: "real list list \<Rightarrow> real list list \<Rightarrow> real list list" where
  "matmul2 a b = map (\<lambda>row. map (\<lambda>col. dot row col) (transpose_m b)) a"

definition matmul :: "tensor3 \<Rightarrow> tensor3 \<Rightarrow> tensor3" where
  "matmul x y = map2 matmul2 x y"

subsection \<open>\<^verbatim>\<open>nn.Dropout\<close>\<close>

text \<open>
  In inference mode dropout is the identity. In training mode every call draws a fresh
  mask and multiplies the tensor by it elementwise (the entries of a mask are 0 or
  \<open>1 / (1 - p)\<close>). The masks drawn during one forward pass are an argument of the
  model: \<open>msk n b i j\<close> is the multiplier that the \<open>n\<close>-th call of the module's
  dropout applies at index \<open>(b, i, j)\<close>. Every probability \<open>p\<close> is covered by some
  choice of masks, so the probability itself is not a field of the model.
\<close>

datatype drop_mode = Inference | Training "nat \<Rightarrow> nat \<Rightarrow> nat \<Rightarrow> nat \<Rightarrow> real"

definition apply_mask :: "(nat \<Rightarrow> nat \<Rightarrow> nat \<Rightarrow> real) \<Rightarrow> tensor3 \<Rightarrow> tensor3" where
  "apply_mask msk x =
     map (\<lambda>b. map (\<lambda>i. map (\<lambda>j. msk b i j * x ! b ! i ! j) [0..<length (x ! b ! i)])
                 [0..<length (x ! b)])
         [0..<length x]"

definition dropout :: "drop_mode \<Rightarrow> nat \<Rightarrow> tensor3 \<Rightarrow> tensor3" where
  "dropout dm n x = (case dm of Inference \<Rightarrow> x | Training msk \<Rightarrow> apply_mask (msk n) x)"

section \<open>The encoder\<close>

record encoder =
  enc_input_dim :: nat
  enc_emb_dim :: nat
  enc_hid_dim :: nat
  enc_kernel_size :: int
  enc_scale :: real
  enc_tok_embedding :: "real list list"
  enc_pos_embedding :: "real list list"
  enc_emb2hid :: nn_linear
  enc_hid2emb :: nn_linear
  enc_convs :: "nn_conv1d list"

subsection \<open>Construction\<close>

text \<open>
  The constructors of the library draw the initial values of the parameters at random;
  here they are read from \<open>init name index\<close>, where \<open>name\<close> is the name of the
  parameter in the module. The dimensions are natural numbers; the kernel size is a
  Python integer, since the constructor of the encoder tests its parity. A layer whose
  kernel would have a negative size cannot be allocated.
\<close>

definition nn_Embedding :: "nat \<Rightarrow> nat \<Rightarrow> (nat list \<Rightarrow> real) \<Rightarrow> real list list" where
  "nn_Embedding num_embeddings embedding_dim w =
     map (\<lambda>i. map (\<lambda>j. w [i, j]) [0..<embedding_dim]) [0..<num_embeddings]"

definition nn_Linear :: "nat \<Rightarrow> nat \<Rightarrow> (nat list \<Rightarrow> real) \<Rightarrow> (nat list \<Rightarrow> real) \<Rightarrow> nn_linear" where
  "nn_Linear in_features out_features w b =
     \<lparr>lin_weight = map (\<lambda>out. map (\<lambda>i. w [out, i]) [0..<in_features]) [0..<out_features],
      lin_bias = map (\<lambda>out. b [out]) [0..<out_features]\<rparr>"

definition nn_Conv1d ::
  "nat \<Rightarrow> nat \<Rightarrow> nat \<Rightarrow> nat \<Rightarrow> (nat list \<Rightarrow> real) \<Rightarrow> (nat list \<Rightarrow> real) \<Rightarrow> nn_conv1d" where
  "nn_Conv1d in_channels out_channels kernel_size padding w b =
     \<lparr>conv_weight = map (\<lambda>out. map (\<lambda>c. map (\<lambda>j. w [out, c, j]) [0..<kernel_size])
                                   [0..<in_channels]) [0..<out_channels],
      conv_bias = map (\<lambda>out. b [out]) [0..<out_channels],
      conv_kernel_size = kernel_size,
      conv_padding = padding\<rparr>"

definition Encoder_init ::
  "nat \<Rightarrow> nat \<Rightarrow> nat \<Rightarrow> nat \<Rightarrow> int \<Rightarrow> (string \<Rightarrow> nat list \<Rightarrow> real) \<Rightarrow> error + encoder" where
  "Encoder_init input_dim emb_dim hid_dim n_layers kernel_size init =
     (if kernel_size mod 2 \<noteq> 1 then Inl AssertionError
      else if 0 < n_layers \<and> kernel_size < 0 then Inl RuntimeError
      else Inr
        \<lparr>enc_input_dim = input_dim,
         enc_emb_dim = emb_dim,
         enc_hid_dim = hid_dim,
         enc_kernel_size = kernel_size,
         enc_scale = sqrt 0.5,
         enc_tok_embedding = nn_Embedding input_dim emb_dim (init ''tok_embedding.weight''),
         enc_pos_embedding = nn_Embedding 100 emb_dim (init ''pos_embedding.weight''),
         enc_emb2hid = nn_Linear emb_dim hid_dim (init ''emb2hid.weight'') (init ''emb2hid.bias''),
         enc_hid2emb = nn_Linear hid_dim emb_dim (init ''hid2emb.weight'') (init ''hid2emb.bias''),
         enc_convs = map (\<lambda>l. nn_Conv1d hid_dim (2 * hid_dim) (nat kernel_size)
                                 (nat ((kernel_size - 1) div 2))
                                 (\<lambda>ix. init ''convs.weight'' (l # ix))
                                 (\<lambda>ix. init ''convs.bias'' (l # ix)))
                         [0..<n_layers]\<rparr>)"

subsection \<open>The forward pass\<close>

text \<open>
  \<open>arange_rows src\<close> is the position tensor: in every row of the batch the column
  indices \<open>0 .. src.shape[1] - 1\<close>.
\<close>

definition arange_rows :: "int list list \<Rightarrow> int list list" where
  "arange_rows src = map (\<lambda>row. map int [0..<length row]) src"

definition encoder_stage ::
  "drop_mode \<Rightarrow> nat \<Rightarrow> real \<Rightarrow> nn_conv1d \<Rightarrow> tensor3 \<Rightarrow> error + tensor3" where
  "encoder_stage dm i scale conv conv_input =
     (case conv1d conv (dropout dm (Suc i) conv_input) of Inl e \<Rightarrow> Inl e
      | Inr conved \<Rightarrow>
     (case glu_dim1 conved of Inl e \<Rightarrow> Inl e
      | Inr conved \<Rightarrow> Inr (mul_scalar (add3 conved conv_input) scale)))"

text \<open>
  The loop over \<^verbatim>\<open>self.convs\<close>. The local variable \<^verbatim>\<open>conved\<close> is bound by the first
  iteration only: it is \<open>None\<close> until then.
\<close>

fun encoder_loop ::
  "drop_mode \<Rightarrow> real \<Rightarrow> nat \<Rightarrow> nn_conv1d list \<Rightarrow> tensor3 \<Rightarrow> tensor3 option
     \<Rightarrow> error + tensor3 option" where
  "encoder_loop dm scale i [] conv_input conved = Inr conved"
| "encoder_loop dm scale i (conv # convs) conv_input conved =
     (case encoder_stage dm i scale conv conv_input of Inl e \<Rightarrow> Inl e
      | Inr conved' \<Rightarrow> encoder_loop dm scale (Suc i) convs conved' (Some conved'))"

definition encoder_forward ::
  "encoder \<Rightarrow> drop_mode \<Rightarrow> int list list \<Rightarrow> error + (tensor3 \<times> tensor3)" where
  "encoder_forward p dm src =
     (let pos = arange_rows src in
      case embedding (enc_tok_embedding p) src of Inl e \<Rightarrow> Inl e
      | Inr tok_embedded \<Rightarrow>
     (case embedding (enc_pos_embedding p) pos of Inl e \<Rightarrow> Inl e
      | Inr pos_embedded \<Rightarrow>
     (let embedded = dropout dm 0 (add3 tok_embedded pos_embedded);
          conv_input = permute021 (linear_fwd (enc_emb2hid p) embedded)
      in case encoder_loop dm (enc_scale p) 0 (enc_convs p) conv_input None of
           Inl e \<Rightarrow> Inl e
         | Inr None \<Rightarrow> Inl UnboundLocalError
         | Inr (Some conved) \<Rightarrow>
             (let conved = linear_fwd (enc_hid2emb p) (permute021 conved);
                  combined = mul_scalar (add3 conved embedded) (enc_scale p)
              in Inr (conved, combined)))))"

section \<open>The decoder\<close>

record decoder =
  dec_output_dim :: nat
  dec_emb_dim :: nat
  dec_hid_dim :: nat
  dec_kernel_size :: int
  dec_pad_idx :: int
  dec_scale :: real
  dec_tok_embedding :: "real list list"
  dec_pos_embedding :: "real list list"
  dec_emb2hid :: nn_linear
  dec_hid2emb :: nn_linear
  dec_attn_hid2emb :: nn_linear
  dec_attn_emb2hid :: nn_linear
  dec_out :: nn_linear
  dec_convs :: "nn_conv1d list"

definition Decoder_init ::
  "nat \<Rightarrow> nat \<Rightarrow> nat \<Rightarrow> nat \<Rightarrow> int \<Rightarrow> int \<Rightarrow> (string \<Rightarrow> nat list \<Rightarrow> real) \<Rightarrow> error + decoder" where
  "Decoder_init output_dim emb_dim hid_dim n_layers kernel_size pad_idx init =
     (if 0 < n_layers \<and> kernel_size < 0 then Inl RuntimeError
      else Inr
        \<lparr>dec_output_dim = output_dim,
         dec_emb_dim = emb_dim,
         dec_hid_dim = hid_dim,
         dec_kernel_size = kernel_size,
         dec_pad_idx = pad_idx,
         dec_scale = sqrt 0.5,
         dec_tok_embedding = nn_Embedding output_dim emb_dim (init ''tok_embedding.weight''),
         dec_pos_embedding = nn_Embedding 100 emb_dim (init ''pos_embedding.weight''),
         dec_emb2hid = nn_Linear emb_dim hid_dim (init ''emb2hid.weight'') (init ''emb2hid.bias''),
         dec_hid2emb = nn_Linear hid_dim emb_dim (init ''hid2emb.weight'') (init ''hid2emb.bias''),
         dec_attn_hid2emb = nn_Linear hid_dim emb_dim (init ''attn_hid2emb.weight'')
                              (init ''attn_hid2emb.bias''),
         dec_attn_emb2hid = nn_Linear emb_dim hid_dim (init ''attn_emb2hid.weight'')
                              (init ''attn_emb2hid.bias''),
         dec_out = nn_Linear emb_dim output_dim (init ''out.weight'') (init ''out.bias''),
         dec_convs = map (\<lambda>l. nn_Conv1d hid_dim (2 * hid_dim) (nat kernel_size) 0
                                 (\<lambda>ix. init ''convs.weight'' (l # ix))
                                 (\<lambda>ix. init ''convs.bias'' (l # ix)))
                         [0..<n_layers]\<rparr>)"

definition calculate_attention ::
  "decoder \<Rightarrow> tensor3 \<Rightarrow> tensor3 \<Rightarrow> tensor3 \<Rightarrow> tensor3 \<Rightarrow> tensor3 \<times> tensor3" where
  "calculate_attention q embedded conved encoder_conved encoder_combined =
     (let conved_emb = linear_fwd (dec_attn_hid2emb q) (permute021 conved);
          combined = mul_scalar (add3 embedded conved_emb) (dec_scale q);
          energy = matmul combined (permute021 encoder_conved);
          attention = softmax_dim2 energy;
          attended_encoding = matmul attention (add3 encoder_conved encoder_combined);
          attended_encoding = linear_fwd (dec_attn_emb2hid q) attended_encoding;
          attended_combined =
            mul_scalar (add3 conved (permute021 attended_encoding)) (dec_scale q)
      in (attention, attended_combined))"

text \<open>
  \<open>full_dim2 n v x\<close> is the tensor \<^verbatim>\<open>torch.zeros(x.shape[0], x.shape[1], n).fill_(v)\<close>:
  one row of \<open>n\<close> copies of \<open>v\<close> for every index pair of the first two axes of \<open>x\<close>.
  \<open>cat_dim2\<close> is \<^verbatim>\<open>torch.cat(_, dim=2)\<close> of two tensors that agree on those axes.
\<close>

definition full_dim2 :: "nat \<Rightarrow> real \<Rightarrow> tensor3 \<Rightarrow> tensor3" where
  "full_dim2 n v x = map (map (\<lambda>_. replicate n v)) x"

definition cat_dim2 :: "tensor3 \<Rightarrow> tensor3 \<Rightarrow> tensor3" where
  "cat_dim2 x y = map2 (map2 (@)) x y"

definition decoder_stage ::
  "decoder \<Rightarrow> drop_mode \<Rightarrow> nat \<Rightarrow> tensor3 \<Rightarrow> tensor3 \<Rightarrow> tensor3 \<Rightarrow> nn_conv1d \<Rightarrow> tensor3
     \<Rightarrow> error + (tensor3 \<times> tensor3)" where
  "decoder_stage q dm i embedded encoder_conved encoder_combined conv conv_input =
     (let conv_input = dropout dm (Suc i) conv_input in
      if dec_kernel_size q - 1 < 0 then Inl RuntimeError
      else
       (let padding = full_dim2 (nat (dec_kernel_size q - 1)) (real_of_int (dec_pad_idx q))
                        conv_input;
            padded_conv_input = cat_dim2 padding conv_input
        in case conv1d conv padded_conv_input of Inl e \<Rightarrow> Inl e
           | Inr conved \<Rightarrow>
          (case glu_dim1 conved of Inl e \<Rightarrow> Inl e
           | Inr conved \<Rightarrow>
              (let (attention, conved) =
                     calculate_attention q embedded conved encoder_conved encoder_combined
               in Inr (attention, mul_scalar (add3 conved conv_input) (dec_scale q))))))"

text \<open>
  For comparison only, and not a function of the source: the stage of the decoder with
  the residual connection in the formulation of the encoder. The convolution reads the
  input after dropout, as in \<open>decoder_stage\<close>, and the residual sum adds the input of
  the stage as it was before dropout.
\<close>

definition decoder_stage_residual_before_dropout ::
  "decoder \<Rightarrow> drop_mode \<Rightarrow> nat \<Rightarrow> tensor3 \<Rightarrow> tensor3 \<Rightarrow> tensor3 \<Rightarrow> nn_conv1d \<Rightarrow> tensor3
     \<Rightarrow> error + (tensor3 \<times> tensor3)" where
  "decoder_stage_residual_before_dropout q dm i embedded encoder_conved encoder_combined conv
       conv_input =
     (let dropped = dropout dm (Suc i) conv_input in
      if dec_kernel_size q - 1 < 0 then Inl RuntimeError
      else
       (let padding = full_dim2 (nat (dec_kernel_size q - 1)) (real_of_int (dec_pad_idx q))
                        dropped;
            padded_conv_input = cat_dim2 padding dropped
        in case conv1d conv padded_conv_input of Inl e \<Rightarrow> Inl e
           | Inr conved \<Rightarrow>
          (case glu_dim1 conved of Inl e \<Rightarrow> Inl e
           | Inr conved \<Rightarrow>
              (let (attention, conved) =
                     calculate_attention q embedded conved encoder_conved encoder_combined
               in Inr (attention, mul_scalar (add3 conved conv_input) (dec_scale q))))))"

text \<open>
  The loop over \<^verbatim>\<open>self.convs\<close>: \<^verbatim>\<open>attention\<close> and \<^verbatim>\<open>conved\<close> are bound together, by
  the first iteration; the pair is \<open>None\<close> until then.
\<close>

fun decoder_loop ::
  "decoder \<Rightarrow> drop_mode \<Rightarrow> nat \<Rightarrow> tensor3 \<Rightarrow> tensor3 \<Rightarrow> tensor3 \<Rightarrow> nn_conv1d list \<Rightarrow> tensor3
     \<Rightarrow> (tensor3 \<times> tensor3) option \<Rightarrow> error + (tensor3 \<times> tensor3) option" where
  "decoder_loop q dm i embedded ec em [] conv_input bound = Inr bound"
| "decoder_loop q dm i embedded ec em (conv # convs) conv_input bound =
     (case decoder_stage q dm i embedded ec em conv conv_input of Inl e \<Rightarrow> Inl e
      | Inr (attention, conved) \<Rightarrow>
          decoder_loop q dm (Suc i) embedded ec em convs conved (Some (attention, conved)))"

definition decoder_forward ::
  "decoder \<Rightarrow> drop_mode \<Rightarrow> int list list \<Rightarrow> tensor3 \<Rightarrow> tensor3 \<Rightarrow> error + (tensor3 \<times> tensor3)" where
  "decoder_forward q dm trg encoder_conved encoder_combined =
     (let pos = arange_rows trg in
      case embedding (dec_tok_embedding q) trg of Inl e \<Rightarrow> Inl e
      | Inr tok_embedded \<Rightarrow>
     (case embedding (dec_pos_embedding q) pos of Inl e \<Rightarrow> Inl e
      | Inr pos_embedded \<Rightarrow>
     (let embedded = dropout dm 0 (add3 tok_embedded pos_embedded);
          conv_input = permute021 (linear_fwd (dec_emb2hid q) embedded)
      in case decoder_loop q dm 0 embedded encoder_conved encoder_combined (dec_convs q)
                conv_input None of
           Inl e \<Rightarrow> Inl e
         | Inr None \<Rightarrow> Inl UnboundLocalError
         | Inr (Some (attention, conved)) \<Rightarrow>
             (let conved = linear_fwd (dec_hid2emb q) (permute021 conved);
                  output = linear_fwd (dec_out q)
                             (dropout dm (Suc (length (dec_convs q))) conved)
              in Inr (output, attention)))))"

section \<open>The wrapper\<close>

record seq2seq =
  s2s_encoder :: encoder
  s2s_decoder :: decoder

text \<open>
  The two sub-modules own one dropout module each, so a forward pass of the wrapper
  takes the masks of the encoder and those of the decoder.
\<close>

definition seq2seq_forward ::
  "seq2seq \<Rightarrow> drop_mode \<Rightarrow> drop_mode \<Rightarrow> int list list \<Rightarrow> int list list
     \<Rightarrow> error + (tensor3 \<times> tensor3)" where
  "seq2seq_forward m dme dmd src trg =
     (case encoder_forward (s2s_encoder m) dme src of Inl e \<Rightarrow> Inl e
      | Inr (encoder_conved, encoder_combined) \<Rightarrow>
     (case decoder_forward (s2s_decoder m) dmd trg encoder_conved encoder_combined of
        Inl e \<Rightarrow> Inl e
      | Inr (output, attention) \<Rightarrow> Inr (output, attention)))"

section \<open>Well-formed inputs and parameters\<close>

text \<open>
  \<open>tokens_in_range n idx\<close>: every index of the batch is a row of a table with \<open>n\<close>
  rows. The predicates \<open>wf_encoder\<close> and \<open>wf_decoder\<close> state the shapes of the
  parameters that the constructors build, for positive dimensions and a positive kernel
  size (odd, for the encoder); training changes the values of the parameters and keeps
  their shapes.
\<close>

definition tokens_in_range :: "nat \<Rightarrow> int list list \<Rightarrow> bool" where
  "tokens_in_range n idx = list_all (list_all (\<lambda>t. 0 \<le> t \<and> t < int n)) idx"

definition wf_linear :: "nat \<Rightarrow> nat \<Rightarrow> nn_linear \<Rightarrow> bool" where
  "wf_linear in_features out_features l =
     (shape2 out_features in_features (lin_weight l) \<and> length (lin_bias l) = out_features)"

definition wf_conv :: "nat \<Rightarrow> nat \<Rightarrow> nat \<Rightarrow> nat \<Rightarrow> nn_conv1d \<Rightarrow> bool" where
  "wf_conv in_channels out_channels kernel_size padding c =
     (shape3 out_channels in_channels kernel_size (conv_weight c) \<and>
      length (conv_bias c) = out_channels \<and>
      conv_kernel_size c = kernel_size \<and> conv_padding c = padding)"

definition wf_encoder :: "encoder \<Rightarrow> bool" where
  "wf_encoder p =
     (0 < enc_emb_dim p \<and> 0 < enc_hid_dim p \<and>
      0 < enc_kernel_size p \<and> enc_kernel_size p mod 2 = 1 \<and>
      shape2 (enc_input_dim p) (enc_emb_dim p) (enc_tok_embedding p) \<and>
      shape2 100 (enc_emb_dim p) (enc_pos_embedding p) \<and>
      wf_linear (enc_emb_dim p) (enc_hid_dim p) (enc_emb2hid p) \<and>
      wf_linear (enc_hid_dim p) (enc_emb_dim p) (enc_hid2emb p) \<and>
      list_all (wf_conv (enc_hid_dim p) (2 * enc_hid_dim p) (nat (enc_kernel_size p))
                  (nat ((enc_kernel_size p - 1) div 2))) (enc_convs p))"

definition wf_decoder :: "decoder \<Rightarrow> bool" where
  "wf_decoder q =
     (0 < dec_emb_dim q \<and> 0 < dec_hid_dim q \<and> 0 < dec_kernel_size q \<and>
      shape2 (dec_output_dim q) (dec_emb_dim q) (dec_tok_embedding q) \<and>
      shape2 100 (dec_emb_dim q) (dec_pos_embedding q) \<and>
      wf_linear (dec_emb_dim q) (dec_hid_dim q) (dec_emb2hid q) \<and>
      wf_linear (dec_hid_dim q) (dec_emb_dim q) (dec_hid2emb q) \<and>
      wf_linear (dec_hid_dim q) (dec_emb_dim q) (dec_attn_hid2emb q) \<and>
      wf_linear (dec_emb_dim q) (dec_hid_dim q) (dec_attn_emb2hid q) \<and>
      wf_linear (dec_emb_dim q) (dec_output_dim q) (dec_out q) \<and>
      list_all (wf_conv (dec_hid_dim q) (2 * dec_hid_dim q) (nat (dec_kernel_size q)) 0)
        (dec_convs q))"

section \<open>Failures\<close>

lemma traverse_Inl: "traverse f xs = Inl e \<Longrightarrow> \<exists>x\<in>set xs. f x = Inl e"
  by (induction xs) (auto split: sum.splits)

lemma traverse_Inr_map:
  "traverse f xs = Inr ys \<Longrightarrow> (\<And>x y. x \<in> set xs \<Longrightarrow> f x = Inr y \<Longrightarrow> y = g x)
     \<Longrightarrow> ys = map g xs"
  by (induction xs arbitrary: ys) (auto split: sum.splits)

lemma traverse_total:
  "(\<And>x. x \<in> set xs \<Longrightarrow> f x = Inr (g x)) \<Longrightarrow> traverse f xs = Inr (map g xs)"
  by (induction xs) auto

lemma traverse_embedding_row:
  "traverse (embedding_row table) row =
     (if list_all (\<lambda>t. 0 \<le> t \<and> t < int (length table)) row
      then Inr (map (\<lambda>t. table ! nat t) row) else Inl IndexError)"
  by (induction row) (auto simp: embedding_row_def)

lemma embedding_eq:
  "embedding table idx =
     (if tokens_in_range (length table) idx
      then Inr (map (map (\<lambda>t. table ! nat t)) idx) else Inl IndexError)"
  unfolding embedding_def tokens_in_range_def
  by (induction idx) (auto simp: traverse_embedding_row)

lemma conv1d_error: "conv1d c x = Inl e \<Longrightarrow> e = RuntimeError"
  unfolding conv1d_def by (auto dest!: traverse_Inl simp: conv1d_seq_def split: if_splits)

lemma glu_dim1_error: "glu_dim1 x = Inl e \<Longrightarrow> e = RuntimeError"
  unfolding glu_dim1_def by (auto dest!: traverse_Inl simp: glu_seq_def split: if_splits)

lemma encoder_stage_error: "encoder_stage dm i s c x = Inl e \<Longrightarrow> e = RuntimeError"
  unfolding encoder_stage_def
  by (auto split: sum.splits dest: conv1d_error glu_dim1_error)

lemma encoder_loop_error: "encoder_loop dm s i cs x b = Inl e \<Longrightarrow> e = RuntimeError"
  by (induction cs arbitrary: i x b) (auto split: sum.splits dest: encoder_stage_error)

lemma encoder_forward_error:
  "encoder_forward p dm src = Inl e
     \<Longrightarrow> e = IndexError \<or> e = RuntimeError \<or> e = UnboundLocalError"
  unfolding encoder_forward_def Let_def
  by (auto simp: embedding_eq split: sum.splits option.splits if_splits
        dest: encoder_loop_error)

lemma decoder_stage_error:
  "decoder_stage q dm i emb ec em c x = Inl e \<Longrightarrow> e = RuntimeError"
  unfolding decoder_stage_def Let_def
  by (auto split: sum.splits if_splits prod.splits dest: conv1d_error glu_dim1_error)

lemma decoder_loop_error:
  "decoder_loop q dm i emb ec em cs x b = Inl e \<Longrightarrow> e = RuntimeError"
  by (induction cs arbitrary: i x b) (auto split: sum.splits dest: decoder_stage_error)

lemma encoder_loop_None:
  "encoder_loop dm s i cs x b = Inr None \<Longrightarrow> cs = [] \<and> b = None"
  by (induction cs arbitrary: i x b) (auto split: sum.splits)

lemma decoder_loop_None:
  "decoder_loop q dm i emb ec em cs x b = Inr None \<Longrightarrow> cs = [] \<and> b = None"
  by (induction cs arbitrary: i x b) (auto split: sum.splits)

section \<open>The construction-time check of the kernel size\<close>

text \<open>
  Claim C6. The constructor of the encoder fails with an assertion failure for every even
  kernel size; for every odd kernel size the assertion passes, and for a positive odd
  one the encoder is built. The check belongs to the constructor only: the forward pass
  never fails with an assertion failure, whatever the kernel size stored in the encoder.
\<close>

theorem encoder_kernel_size_assertion:
  "(kernel_size mod 2 = 0 \<longrightarrow>
      Encoder_init input_dim emb_dim hid_dim n_layers kernel_size init = Inl AssertionError) \<and>
   (kernel_size mod 2 = 1 \<longrightarrow>
      Encoder_init input_dim emb_dim hid_dim n_layers kernel_size init \<noteq> Inl AssertionError) \<and>
   (kernel_size mod 2 = 1 \<and> 0 < kernel_size \<longrightarrow>
      (\<exists>p. Encoder_init input_dim emb_dim hid_dim n_layers kernel_size init = Inr p \<and>
           enc_kernel_size p = kernel_size)) \<and>
   encoder_forward p dm src \<noteq> Inl AssertionError"
proof -
  have "encoder_forward p dm src \<noteq> Inl AssertionError"
    using encoder_forward_error [of p dm src AssertionError] by auto
  then show ?thesis
    by (auto simp: Encoder_init_def)
qed

theorem encoder_kernel_size_assertion_witness:
  "Encoder_init 10 8 16 2 4 (\<lambda>name ix. 0) = Inl AssertionError \<and>
   Encoder_init 10 8 16 2 3 (\<lambda>name ix. 0) \<noteq> Inl AssertionError \<and>
   (\<exists>p. Encoder_init 10 8 16 2 3 (\<lambda>name ix. 0) = Inr p \<and> enc_kernel_size p = 3) \<and>
   (\<forall>p. encoder_forward (p\<lparr>enc_kernel_size := 4\<rparr>) Inference [[0, 1]] \<noteq> Inl AssertionError)"
  using encoder_kernel_size_assertion [of 4 10 8 16 2 "\<lambda>name ix. 0"]
    encoder_kernel_size_assertion [of 3 10 8 16 2 "\<lambda>name ix. 0"]
    encoder_kernel_size_assertion [of 3 10 8 16 2 "\<lambda>name ix. 0" _ Inference "[[0, 1]]"]
  by simp

section \<open>A module without convolution layers\<close>

text \<open>
  Claim C10. With \<open>n_layers = 0\<close> the list of convolutions is empty, the loop body never
  runs and the forward pass of the encoder and of the decoder fails: with
  \<^verbatim>\<open>UnboundLocalError\<close> when the two embedding lookups succeed, and with the
  \<^verbatim>\<open>IndexError\<close> of the lookup, raised earlier, when they do not. Hence a forward pass
  that returns its outputs belongs to a module with at least one layer.
\<close>

theorem zero_layers_unbound_local:
  "(enc_convs p = [] \<longrightarrow>
      encoder_forward p dm src =
        (if tokens_in_range (length (enc_tok_embedding p)) src \<and>
            tokens_in_range (length (enc_pos_embedding p)) (arange_rows src)
         then Inl UnboundLocalError else Inl IndexError)) \<and>
   (dec_convs q = [] \<longrightarrow>
      decoder_forward q dm trg ec em =
        (if tokens_in_range (length (dec_tok_embedding q)) trg \<and>
            tokens_in_range (length (dec_pos_embedding q)) (arange_rows trg)
         then Inl UnboundLocalError else Inl IndexError)) \<and>
   (encoder_forward p dm src = Inr r \<longrightarrow> enc_convs p \<noteq> []) \<and>
   (decoder_forward q dm trg ec em = Inr r' \<longrightarrow> dec_convs q \<noteq> []) \<and>
   (Encoder_init input_dim emb_dim hid_dim 0 kernel_size init = Inr p' \<longrightarrow> enc_convs p' = []) \<and>
   (Decoder_init output_dim emb_dim' hid_dim' 0 kernel_size' pad_idx init' = Inr q'
      \<longrightarrow> dec_convs q' = [])"
proof -
  have e: "enc_convs p = [] \<Longrightarrow> encoder_forward p dm src =
        (if tokens_in_range (length (enc_tok_embedding p)) src \<and>
            tokens_in_range (length (enc_pos_embedding p)) (arange_rows src)
         then Inl UnboundLocalError else Inl IndexError)"
    by (simp add: encoder_forward_def embedding_eq Let_def)
  have d: "dec_convs q = [] \<Longrightarrow> decoder_forward q dm trg ec em =
        (if tokens_in_range (length (dec_tok_embedding q)) trg \<and>
            tokens_in_range (length (dec_pos_embedding q)) (arange_rows trg)
         then Inl UnboundLocalError else Inl IndexError)"
    by (simp add: decoder_forward_def embedding_eq Let_def)
  have e': "encoder_forward p dm src = Inr r \<Longrightarrow> enc_convs p \<noteq> []"
    using e by (auto split: if_splits)
  have d': "decoder_forward q dm trg ec em = Inr r' \<Longrightarrow> dec_convs q \<noteq> []"
    using d by (auto split: if_splits)
  have i: "Encoder_init input_dim emb_dim hid_dim 0 kernel_size init = Inr p'
             \<Longrightarrow> enc_convs p' = []"
    by (auto simp: Encoder_init_def split: if_splits)
  have j: "Decoder_init output_dim emb_dim' hid_dim' 0 kernel_size' pad_idx init' = Inr q'
             \<Longrightarrow> dec_convs q' = []"
    by (auto simp: Decoder_init_def split: if_splits)
  from e d e' d' i j show ?thesis by blast
qed

theorem zero_layers_unbound_local_witness:
  "\<exists>p q. Encoder_init 10 8 16 0 3 (\<lambda>name ix. 0) = Inr p \<and>
         Decoder_init 12 8 16 0 3 0 (\<lambda>name ix. 0) = Inr q \<and>
         enc_convs p = [] \<and> dec_convs q = [] \<and>
         encoder_forward p Inference [[0, 1]] = Inl UnboundLocalError \<and>
         decoder_forward q Inference [[0, 1]] [] [] = Inl UnboundLocalError"
proof -
  obtain p where p: "Encoder_init 10 8 16 0 3 (\<lambda>name ix. 0) = Inr p"
    by (simp add: Encoder_init_def)
  obtain q where q: "Decoder_init 12 8 16 0 3 0 (\<lambda>name ix. 0) = Inr q"
    by (simp add: Decoder_init_def)
  have lp: "length (enc_tok_embedding p) = 10" "length (enc_pos_embedding p) = 100"
    using p by (auto simp: Encoder_init_def nn_Embedding_def)
  have lq: "length (dec_tok_embedding q) = 12" "length (dec_pos_embedding q) = 100"
    using q by (auto simp: Decoder_init_def nn_Embedding_def)
  have cp: "enc_convs p = []"
    using zero_layers_unbound_local
      [where p' = p and input_dim = 10 and emb_dim = 8 and hid_dim = 16
         and kernel_size = 3 and init = "\<lambda>name ix. 0"] p
    by blast
  have cq: "dec_convs q = []"
    using zero_layers_unbound_local
      [where q' = q and output_dim = 12 and emb_dim' = 8 and hid_dim' = 16
         and kernel_size' = 3 and pad_idx = 0 and init' = "\<lambda>name ix. 0"] q
    by blast
  have fp: "encoder_forward p Inference [[0, 1]] = Inl UnboundLocalError"
    using zero_layers_unbound_local [where p = p and dm = Inference and src = "[[0, 1]]"] cp lp
    by (simp add: tokens_in_range_def arange_rows_def)
  have fq: "decoder_forward q Inference [[0, 1]] [] [] = Inl UnboundLocalError"
    using zero_layers_unbound_local
      [where q = q and dm = Inference and trg = "[[0, 1]]" and ec = "[]" and em = "[]"] cq lq
    by (simp add: tokens_in_range_def arange_rows_def)
  from p q cp cq fp fq show ?thesis by blast
qed

section \<open>Shapes\<close>

lemma shape2_iff: "shape2 n m x \<longleftrightarrow> length x = n \<and> (\<forall>r\<in>set x. length r = m)"
  by (simp add: shape2_def list_all_iff)

lemma shape3_iff: "shape3 b n m x \<longleftrightarrow> length x = b \<and> (\<forall>y\<in>set x. shape2 n m y)"
  by (simp add: shape3_def list_all_iff)

lemma shape3_map:
  "shape3 b n m x \<Longrightarrow> (\<And>y. shape2 n m y \<Longrightarrow> shape2 n' m' (f y)) \<Longrightarrow> shape3 b n' m' (map f x)"
  by (auto simp: shape3_iff)

lemma shape3_map2:
  "shape3 b n m x \<Longrightarrow> shape3 b n' m' y
     \<Longrightarrow> (\<And>u v. shape2 n m u \<Longrightarrow> shape2 n' m' v \<Longrightarrow> shape2 n'' m'' (f u v))
     \<Longrightarrow> shape3 b n'' m'' (map2 f x y)"
  by (auto simp: shape3_iff elim!: in_set_zipE)

lemma shape2_map2_rows:
  "shape2 n m u \<Longrightarrow> shape2 n m v \<Longrightarrow> shape2 n m (map2 (map2 f) u v)"
  by (auto simp: shape2_iff elim!: in_set_zipE)

lemma add3_shape: "shape3 b n m x \<Longrightarrow> shape3 b n m y \<Longrightarrow> shape3 b n m (add3 x y)"
  unfolding add3_def by (rule shape3_map2) (auto intro: shape2_map2_rows)

lemma mul_scalar_shape: "shape3 b n m x \<Longrightarrow> shape3 b n m (mul_scalar x s)"
  unfolding mul_scalar_def by (auto simp: shape3_iff shape2_iff)

lemma apply_mask_shape: "shape3 b n m x \<Longrightarrow> shape3 b n m (apply_mask msk x)"
  unfolding apply_mask_def by (auto simp: shape3_def shape2_def list_all_length)

lemma dropout_shape: "shape3 b n m x \<Longrightarrow> shape3 b n m (dropout dm k x)"
  unfolding dropout_def by (auto split: drop_mode.splits intro: apply_mask_shape)

lemma linear_vec_length: "wf_linear i out l \<Longrightarrow> length (linear_vec l x) = out"
  by (simp add: wf_linear_def linear_vec_def shape2_iff)

lemma linear_fwd_shape:
  "wf_linear i out l \<Longrightarrow> shape3 b n m x \<Longrightarrow> shape3 b n out (linear_fwd l x)"
  unfolding linear_fwd_def by (auto simp: shape3_iff shape2_iff linear_vec_length)

lemma transpose_m_shape: "shape2 n m y \<Longrightarrow> 0 < n \<Longrightarrow> shape2 m n (transpose_m y)"
  by (cases y) (auto simp: shape2_iff transpose_m_def)

lemma permute021_shape: "shape3 b n m x \<Longrightarrow> 0 < n \<Longrightarrow> shape3 b m n (permute021 x)"
  unfolding permute021_def by (rule shape3_map) (auto intro: transpose_m_shape)

lemma seq_len_shape: "shape2 n m y \<Longrightarrow> 0 < n \<Longrightarrow> seq_len y = m"
  by (cases y) (auto simp: shape2_iff seq_len_def)

lemma conv1d_apply_shape:
  "wf_conv cin cout k pad c \<Longrightarrow> shape2 cin len y \<Longrightarrow> 0 < cin
     \<Longrightarrow> shape2 cout (len + 2 * pad + 1 - k) (conv1d_apply c y)"
proof -
  assume c: "wf_conv cin cout k pad c" and y: "shape2 cin len y" and pos: "0 < cin"
  have "seq_len y = len" using y pos by (rule seq_len_shape)
  with c show ?thesis
    by (auto simp: conv1d_apply_def Let_def wf_conv_def shape3_iff shape2_iff)
qed

lemma conv1d_shape:
  assumes "wf_conv cin cout k pad c" "shape3 b cin len x" "0 < cin" "k \<le> len + 2 * pad"
  shows "\<exists>y. conv1d c x = Inr y \<and> shape3 b cout (len + 2 * pad + 1 - k) y"
proof -
  have "conv1d c x = Inr (map (conv1d_apply c) x)"
    unfolding conv1d_def
    using assms
    by (intro traverse_total) (auto simp: conv1d_seq_def shape3_iff seq_len_shape wf_conv_def)
  moreover have "shape3 b cout (len + 2 * pad + 1 - k) (map (conv1d_apply c) x)"
    by (rule shape3_map [OF assms(2)]) (rule conv1d_apply_shape [OF assms(1) _ assms(3)])
  ultimately show ?thesis by blast
qed

lemma glu_apply_shape: "shape2 (2 * h) len y \<Longrightarrow> shape2 h len (glu_apply y)"
  by (auto simp: glu_apply_def shape2_iff elim!: in_set_zipE dest!: in_set_takeD in_set_dropD)

lemma glu_dim1_shape:
  assumes "shape3 b (2 * h) len x"
  shows "\<exists>y. glu_dim1 x = Inr y \<and> shape3 b h len y"
proof -
  have "glu_dim1 x = Inr (map glu_apply x)"
    unfolding glu_dim1_def
    using assms by (intro traverse_total) (auto simp: glu_seq_def shape3_iff shape2_iff)
  moreover have "shape3 b h len (map glu_apply x)"
    by (rule shape3_map [OF assms]) (rule glu_apply_shape)
  ultimately show ?thesis by blast
qed

lemma odd_kernel_padding:
  "0 < (k::int) \<Longrightarrow> k mod 2 = 1 \<Longrightarrow> len + 2 * nat ((k - 1) div 2) + 1 - nat k = len"
proof -
  assume k: "0 < k" "k mod 2 = 1"
  have a: "2 * ((k - 1) div 2) = k - 1" using k by presburger
  have b: "0 \<le> (k - 1) div 2" using k by presburger
  have "int (2 * nat ((k - 1) div 2) + 1) = k" using a b by simp
  then have "2 * nat ((k - 1) div 2) + 1 = nat k" by linarith
  then show ?thesis by simp
qed

lemma encoder_stage_shape:
  assumes c: "wf_conv h (2 * h) (nat k) (nat ((k - 1) div 2)) conv"
    and k: "0 < k" "k mod 2 = 1" and h: "0 < h" and x: "shape3 b h len x" and len: "0 < len"
  shows "\<exists>c y. conv1d conv (dropout dm (Suc i) x) = Inr c \<and> shape3 b (2 * h) len c \<and>
               encoder_stage dm i scale conv x = Inr y \<and> shape3 b h len y"
proof -
  have le: "nat k \<le> len + 2 * nat ((k - 1) div 2)"
    using odd_kernel_padding [OF k, of len] len by linarith
  obtain cv where cv: "conv1d conv (dropout dm (Suc i) x) = Inr cv"
      "shape3 b (2 * h) (len + 2 * nat ((k - 1) div 2) + 1 - nat k) cv"
    using conv1d_shape [OF c dropout_shape [OF x] h le] by blast
  have cv': "shape3 b (2 * h) len cv"
    using cv(2) odd_kernel_padding [OF k, of len] by simp
  obtain g where g: "glu_dim1 cv = Inr g" "shape3 b h len g"
    using glu_dim1_shape [OF cv'] by blast
  have "encoder_stage dm i scale conv x = Inr (mul_scalar (add3 g x) scale)"
    by (simp add: encoder_stage_def cv(1) g(1))
  moreover have "shape3 b h len (mul_scalar (add3 g x) scale)"
    by (intro mul_scalar_shape add3_shape g(2) x)
  ultimately show ?thesis using cv(1) cv' by blast
qed

lemma encoder_loop_shape:
  assumes k: "0 < k" "k mod 2 = 1" and h: "0 < h" and len: "0 < len"
  shows "list_all (wf_conv h (2 * h) (nat k) (nat ((k - 1) div 2))) convs \<Longrightarrow> shape3 b h len x
     \<Longrightarrow> convs \<noteq> [] \<or> (\<exists>c. bound = Some c \<and> shape3 b h len c)
     \<Longrightarrow> \<exists>y. encoder_loop dm scale i convs x bound = Inr (Some y) \<and> shape3 b h len y"
proof (induction convs arbitrary: i x bound)
  case Nil
  then show ?case by auto
next
  case (Cons conv convs)
  from Cons.prems(1) have c: "wf_conv h (2 * h) (nat k) (nat ((k - 1) div 2)) conv"
    and cs: "list_all (wf_conv h (2 * h) (nat k) (nat ((k - 1) div 2))) convs"
    by simp_all
  obtain y where y: "encoder_stage dm i scale conv x = Inr y" "shape3 b h len y"
    using encoder_stage_shape [OF c k h Cons.prems(2) len] by blast
  have "\<exists>z. encoder_loop dm scale (Suc i) convs y (Some y) = Inr (Some z) \<and> shape3 b h len z"
    by (rule Cons.IH [OF cs y(2)]) (simp add: y(2))
  then show ?case by (simp add: y(1))
qed

lemma embedding_shape:
  assumes "shape2 n e table" "shape2 b s idx" "tokens_in_range n idx"
  shows "\<exists>y. embedding table idx = Inr y \<and> shape3 b s e y"
proof -
  have n: "length table = n"
    using assms(1) by (auto simp: shape2_iff)
  have rows: "\<And>t. 0 \<le> t \<Longrightarrow> t < int n \<Longrightarrow> length (table ! nat t) = e"
    using assms(1) by (auto simp: shape2_def list_all_length)
  have "embedding table idx = Inr (map (map (\<lambda>t. table ! nat t)) idx)"
    using assms(3) n by (simp add: embedding_eq)
  moreover have "shape3 b s e (map (map (\<lambda>t. table ! nat t)) idx)"
    using assms(2,3) rows
    by (auto simp: shape3_iff shape2_iff tokens_in_range_def list_all_iff)
  ultimately show ?thesis by blast
qed

lemma arange_rows_shape: "shape2 b s src \<Longrightarrow> shape2 b s (arange_rows src)"
  by (auto simp: shape2_iff arange_rows_def)

lemma arange_rows_in_range:
  "shape2 b s src \<Longrightarrow> s \<le> n \<Longrightarrow> tokens_in_range n (arange_rows src)"
  by (auto simp: shape2_iff arange_rows_def tokens_in_range_def list_all_iff)

lemma encoder_forward_shape:
  assumes wf: "wf_encoder p" and layers: "enc_convs p \<noteq> []"
    and src: "shape2 b s src" and tok: "tokens_in_range (enc_input_dim p) src"
    and s: "0 < s" "s \<le> 100"
  shows "\<exists>conved combined. encoder_forward p dm src = Inr (conved, combined) \<and>
           shape3 b s (enc_emb_dim p) conved \<and> shape3 b s (enc_emb_dim p) combined"
proof -
  let ?E = "enc_emb_dim p" and ?H = "enc_hid_dim p"
  from wf have E: "0 < ?E" and H: "0 < ?H"
    and k: "0 < enc_kernel_size p" "enc_kernel_size p mod 2 = 1"
    and tt: "shape2 (enc_input_dim p) ?E (enc_tok_embedding p)"
    and pt: "shape2 100 ?E (enc_pos_embedding p)"
    and l1: "wf_linear ?E ?H (enc_emb2hid p)" and l2: "wf_linear ?H ?E (enc_hid2emb p)"
    and cs: "list_all (wf_conv ?H (2 * ?H) (nat (enc_kernel_size p))
                  (nat ((enc_kernel_size p - 1) div 2))) (enc_convs p)"
    by (simp_all add: wf_encoder_def)
  obtain te where te: "embedding (enc_tok_embedding p) src = Inr te" "shape3 b s ?E te"
    using embedding_shape [OF tt src tok] by blast
  obtain pe where pe: "embedding (enc_pos_embedding p) (arange_rows src) = Inr pe"
      "shape3 b s ?E pe"
    using embedding_shape [OF pt arange_rows_shape [OF src] arange_rows_in_range [OF src s(2)]]
    by blast
  define embedded where "embedded = dropout dm 0 (add3 te pe)"
  define conv_input where "conv_input = permute021 (linear_fwd (enc_emb2hid p) embedded)"
  have emb: "shape3 b s ?E embedded"
    unfolding embedded_def by (intro dropout_shape add3_shape te(2) pe(2))
  have ci: "shape3 b ?H s conv_input"
    unfolding conv_input_def
    by (rule permute021_shape [OF linear_fwd_shape [OF l1 emb] s(1)])
  obtain y where y: "encoder_loop dm (enc_scale p) 0 (enc_convs p) conv_input None = Inr (Some y)"
      "shape3 b ?H s y"
    using encoder_loop_shape [OF k H s(1) cs ci, of None dm "enc_scale p" 0] layers by blast
  define conved where "conved = linear_fwd (enc_hid2emb p) (permute021 y)"
  define combined where "combined = mul_scalar (add3 conved embedded) (enc_scale p)"
  have cv: "shape3 b s ?E conved"
    unfolding conved_def by (rule linear_fwd_shape [OF l2 permute021_shape [OF y(2) H]])
  have cb: "shape3 b s ?E combined"
    unfolding combined_def by (intro mul_scalar_shape add3_shape cv emb)
  have "encoder_forward p dm src = Inr (conved, combined)"
    by (simp add: encoder_forward_def Let_def te(1) pe(1) y(1)
          embedded_def [symmetric] conv_input_def [symmetric] conved_def [symmetric]
          combined_def [symmetric])
  with cv cb show ?thesis by blast
qed

section \<open>The constructors build well-formed parameters\<close>

lemma nn_Embedding_shape: "shape2 n e (nn_Embedding n e w)"
  by (simp add: nn_Embedding_def shape2_iff)

lemma nn_Linear_wf: "wf_linear i out (nn_Linear i out w b)"
  by (simp add: nn_Linear_def wf_linear_def shape2_iff)

lemma nn_Conv1d_wf: "wf_conv cin cout k pad (nn_Conv1d cin cout k pad w b)"
  by (simp add: nn_Conv1d_def wf_conv_def shape3_iff shape2_iff)

lemma Encoder_init_wf:
  assumes "Encoder_init input_dim emb_dim hid_dim n_layers kernel_size init = Inr p"
    and "0 < emb_dim" "0 < hid_dim" "0 < kernel_size"
  shows "wf_encoder p \<and> enc_input_dim p = input_dim \<and> enc_emb_dim p = emb_dim \<and>
         enc_hid_dim p = hid_dim \<and> length (enc_convs p) = n_layers"
  using assms
  by (auto simp: Encoder_init_def wf_encoder_def nn_Embedding_shape nn_Linear_wf nn_Conv1d_wf
        list_all_iff split: if_splits)

lemma Decoder_init_wf:
  assumes "Decoder_init output_dim emb_dim hid_dim n_layers kernel_size pad_idx init = Inr q"
    and "0 < emb_dim" "0 < hid_dim" "0 < kernel_size"
  shows "wf_decoder q \<and> dec_output_dim q = output_dim \<and> dec_emb_dim q = emb_dim \<and>
         dec_hid_dim q = hid_dim \<and> length (dec_convs q) = n_layers"
  using assms
  by (auto simp: Decoder_init_def wf_decoder_def nn_Embedding_shape nn_Linear_wf nn_Conv1d_wf
        list_all_iff split: if_splits)

section \<open>The encoder keeps the sequence length\<close>

text \<open>
  Claim C7. In a well-formed encoder (odd positive kernel size \<open>k\<close>, each convolution
  padded with \<open>(k - 1) div 2\<close> zeros on both sides) every convolution stage maps an input
  of shape \<open>(b, hid_dim, len)\<close> with \<open>len \<ge> 1\<close> -- in particular with
  \<open>len \<ge> k\<close> -- to a result of the same shape without failing: the convolution gives
  \<open>(b, 2 * hid_dim, len)\<close>, the gated linear unit and the residual sum give
  \<open>(b, hid_dim, len)\<close>.
\<close>

theorem encoder_stage_same_length:
  assumes "wf_encoder p" and "conv \<in> set (enc_convs p)"
    and "shape3 b (enc_hid_dim p) len conv_input" and "0 < len"
  shows "\<exists>conved y.
           conv1d conv (dropout dm (Suc i) conv_input) = Inr conved \<and>
           shape3 b (2 * enc_hid_dim p) len conved \<and>
           encoder_stage dm i (enc_scale p) conv conv_input = Inr y \<and>
           shape3 b (enc_hid_dim p) len y"
proof -
  from assms(1) have H: "0 < enc_hid_dim p"
    and k: "0 < enc_kernel_size p" "enc_kernel_size p mod 2 = 1"
    and cs: "list_all (wf_conv (enc_hid_dim p) (2 * enc_hid_dim p) (nat (enc_kernel_size p))
                  (nat ((enc_kernel_size p - 1) div 2))) (enc_convs p)"
    by (simp_all add: wf_encoder_def)
  from cs assms(2) have c: "wf_conv (enc_hid_dim p) (2 * enc_hid_dim p)
      (nat (enc_kernel_size p)) (nat ((enc_kernel_size p - 1) div 2)) conv"
    by (simp add: list_all_iff)
  show ?thesis
    by (rule encoder_stage_shape [OF c k H assms(3) assms(4)])
qed

theorem encoder_stage_same_length_witness:
  "\<exists>p conv. Encoder_init 10 8 16 2 3 (\<lambda>name ix. 0) = Inr p \<and> conv \<in> set (enc_convs p) \<and>
     (\<exists>conved y.
        conv1d conv (dropout Inference 1 (replicate 2 (replicate 16 (replicate 4 0)))) = Inr conved \<and>
        shape3 2 32 4 conved \<and>
        encoder_stage Inference 0 (enc_scale p) conv (replicate 2 (replicate 16 (replicate 4 0)))
          = Inr y \<and>
        shape3 2 16 4 y)"
proof -
  obtain p where p: "Encoder_init 10 8 16 2 3 (\<lambda>name ix. 0) = Inr p"
    by (simp add: Encoder_init_def)
  have wf: "wf_encoder p" and H: "enc_hid_dim p = 16" and n: "length (enc_convs p) = 2"
    using Encoder_init_wf [OF p] by simp_all
  from n obtain conv where conv: "conv \<in> set (enc_convs p)"
    by (cases "enc_convs p") auto
  have x: "shape3 2 (enc_hid_dim p) 4 (replicate 2 (replicate 16 (replicate 4 (0::real))))"
    by (simp add: H shape3_iff shape2_iff)
  show ?thesis
    using encoder_stage_same_length [OF wf conv x, of Inference 0] p conv H by auto
qed

section \<open>The capacity of the position table\<close>

lemma arange_rows_out_of_range:
  "shape2 b s src \<Longrightarrow> 0 < b \<Longrightarrow> n < s \<Longrightarrow> \<not> tokens_in_range n (arange_rows src)"
  by (cases src) (auto simp: shape2_iff arange_rows_def tokens_in_range_def list_all_iff)

lemma arange_rows_lookup:
  assumes "shape2 b s src" "s \<le> length table"
  shows "embedding table (arange_rows src) = Inr (map (\<lambda>row. map (\<lambda>j. table ! j) [0..<s]) src)"
proof -
  have "tokens_in_range (length table) (arange_rows src)"
    using assms by (rule arange_rows_in_range)
  moreover have "map (map (\<lambda>t. table ! nat t)) (arange_rows src)
      = map (\<lambda>row. map (\<lambda>j. table ! j) [0..<s]) src"
    using assms(1) by (auto simp: arange_rows_def shape2_iff)
  ultimately show ?thesis by (simp add: embedding_eq)
qed

text \<open>
  Claim C5. Both constructors build a position table with exactly 100 rows. With such a
  table, for a batch of sequence length at most 100 the lookup of the positions
  \<open>0 .. len - 1\<close> succeeds and returns the rows of the table at these positions; for a
  batch (of at least one row) of sequence length above 100 the forward pass of the
  encoder and of the decoder fails with \<^verbatim>\<open>IndexError\<close>: no result is returned, so no
  position is wrapped around or cut off.
\<close>

theorem position_capacity:
  "(Encoder_init input_dim emb_dim hid_dim n_layers kernel_size init = Inr p'
      \<longrightarrow> length (enc_pos_embedding p') = 100) \<and>
   (Decoder_init output_dim emb_dim' hid_dim' n_layers' kernel_size' pad_idx init' = Inr q'
      \<longrightarrow> length (dec_pos_embedding q') = 100) \<and>
   (length (enc_pos_embedding p) = 100 \<and> shape2 b s src \<and> s \<le> 100 \<longrightarrow>
      embedding (enc_pos_embedding p) (arange_rows src)
        = Inr (map (\<lambda>row. map (\<lambda>j. enc_pos_embedding p ! j) [0..<s]) src)) \<and>
   (length (dec_pos_embedding q) = 100 \<and> shape2 b s src \<and> s \<le> 100 \<longrightarrow>
      embedding (dec_pos_embedding q) (arange_rows src)
        = Inr (map (\<lambda>row. map (\<lambda>j. dec_pos_embedding q ! j) [0..<s]) src)) \<and>
   (length (enc_pos_embedding p) = 100 \<and> shape2 b s src \<and> 0 < b \<and> 100 < s \<longrightarrow>
      encoder_forward p dm src = Inl IndexError) \<and>
   (length (dec_pos_embedding q) = 100 \<and> shape2 b s src \<and> 0 < b \<and> 100 < s \<longrightarrow>
      decoder_forward q dm src ec em = Inl IndexError)"
proof -
  have a: "Encoder_init input_dim emb_dim hid_dim n_layers kernel_size init = Inr p'
      \<Longrightarrow> length (enc_pos_embedding p') = 100"
    by (auto simp: Encoder_init_def nn_Embedding_def split: if_splits)
  have b: "Decoder_init output_dim emb_dim' hid_dim' n_layers' kernel_size' pad_idx init' = Inr q'
      \<Longrightarrow> length (dec_pos_embedding q') = 100"
    by (auto simp: Decoder_init_def nn_Embedding_def split: if_splits)
  have c: "length (enc_pos_embedding p) = 100 \<Longrightarrow> shape2 b s src \<Longrightarrow> s \<le> 100 \<Longrightarrow>
      embedding (enc_pos_embedding p) (arange_rows src)
        = Inr (map (\<lambda>row. map (\<lambda>j. enc_pos_embedding p ! j) [0..<s]) src)"
    by (rule arange_rows_lookup) simp_all
  have d: "length (dec_pos_embedding q) = 100 \<Longrightarrow> shape2 b s src \<Longrightarrow> s \<le> 100 \<Longrightarrow>
      embedding (dec_pos_embedding q) (arange_rows src)
        = Inr (map (\<lambda>row. map (\<lambda>j. dec_pos_embedding q ! j) [0..<s]) src)"
    by (rule arange_rows_lookup) simp_all
  have e: "length (enc_pos_embedding p) = 100 \<Longrightarrow> shape2 b s src \<Longrightarrow> 0 < b \<Longrightarrow> 100 < s \<Longrightarrow>
      encoder_forward p dm src = Inl IndexError"
    using arange_rows_out_of_range [of b s src 100]
    by (simp add: encoder_forward_def embedding_eq Let_def)
  have f: "length (dec_pos_embedding q) = 100 \<Longrightarrow> shape2 b s src \<Longrightarrow> 0 < b \<Longrightarrow> 100 < s \<Longrightarrow>
      decoder_forward q dm src ec em = Inl IndexError"
    using arange_rows_out_of_range [of b s src 100]
    by (simp add: decoder_forward_def embedding_eq Let_def)
  from a b c d e f show ?thesis by blast
qed

theorem position_capacity_witness:
  "\<exists>p q. Encoder_init 10 8 16 2 3 (\<lambda>name ix. 0) = Inr p \<and>
         Decoder_init 12 8 16 2 3 0 (\<lambda>name ix. 0) = Inr q \<and>
         length (enc_pos_embedding p) = 100 \<and> length (dec_pos_embedding q) = 100 \<and>
         embedding (enc_pos_embedding p) (arange_rows [replicate 100 0])
           = Inr [map (\<lambda>j. enc_pos_embedding p ! j) [0..<100]] \<and>
         embedding (dec_pos_embedding q) (arange_rows [replicate 100 0])
           = Inr [map (\<lambda>j. dec_pos_embedding q ! j) [0..<100]] \<and>
         encoder_forward p Inference [replicate 101 0] = Inl IndexError \<and>
         decoder_forward q Inference [replicate 101 0] [] [] = Inl IndexError"
proof -
  obtain p where p: "Encoder_init 10 8 16 2 3 (\<lambda>name ix. 0) = Inr p"
    by (simp add: Encoder_init_def)
  obtain q where q: "Decoder_init 12 8 16 2 3 0 (\<lambda>name ix. 0) = Inr q"
    by (simp add: Decoder_init_def)
  have lp: "length (enc_pos_embedding p) = 100"
    using position_capacity [where p' = p and input_dim = 10 and emb_dim = 8 and hid_dim = 16
        and n_layers = 2 and kernel_size = 3 and init = "\<lambda>name ix. 0"] p by blast
  have lq: "length (dec_pos_embedding q) = 100"
    using position_capacity [where q' = q and output_dim = 12 and emb_dim' = 8 and hid_dim' = 16
        and n_layers' = 2 and kernel_size' = 3 and pad_idx = 0 and init' = "\<lambda>name ix. 0"] q
    by blast
  have s100: "shape2 1 100 [replicate 100 (0::int)]" and s101: "shape2 1 101 [replicate 101 (0::int)]"
    by (simp_all add: shape2_iff)
  have ep: "embedding (enc_pos_embedding p) (arange_rows [replicate 100 0])
           = Inr [map (\<lambda>j. enc_pos_embedding p ! j) [0..<100]]"
    using position_capacity [where p = p and b = 1 and s = 100 and src = "[replicate 100 0]"]
      lp s100 by simp
  have eq: "embedding (dec_pos_embedding q) (arange_rows [replicate 100 0])
           = Inr [map (\<lambda>j. dec_pos_embedding q ! j) [0..<100]]"
    using position_capacity [where q = q and b = 1 and s = 100 and src = "[replicate 100 0]"]
      lq s100 by simp
  have fp: "encoder_forward p Inference [replicate 101 0] = Inl IndexError"
    using position_capacity [where p = p and b = 1 and s = 101 and src = "[replicate 101 0]"
        and dm = Inference] lp s101 by simp
  have fq: "decoder_forward q Inference [replicate 101 0] [] [] = Inl IndexError"
    using position_capacity [where q = q and b = 1 and s = 101 and src = "[replicate 101 0]"
        and dm = Inference and ec = "[]" and em = "[]"] lq s101 by simp
  from p q lp lq ep eq fp fq show ?thesis by blast
qed

section \<open>Shapes in the decoder\<close>

lemma glu_apply_nth:
  assumes "shape2 (2 * h) len y" "c < h" "t < len"
  shows "glu_apply y ! c ! t = y ! c ! t * sigmoid (y ! (h + c) ! t)"
proof -
  have ly: "length y = 2 * h" and rows: "\<And>i. i < 2 * h \<Longrightarrow> length (y ! i) = len"
    using assms(1) by (auto simp: shape2_def list_all_length)
  have "glu_apply y ! c = map2 (\<lambda>a b. a * sigmoid b) (y ! c) (y ! (h + c))"
    using assms(2) ly by (simp add: glu_apply_def)
  then show ?thesis
    using assms(2,3) rows [of c] rows [of "h + c"] by simp
qed

lemma left_pad_eq:
  "cat_dim2 (full_dim2 n v x) x = map (map (\<lambda>r. replicate n v @ r)) x"
proof -
  have row: "\<And>m::real list list. map2 (@) (map (\<lambda>_. replicate n v) m) m = map (\<lambda>r. replicate n v @ r) m"
    by (simp add: zip_map1 zip_same_conv_map)
  show ?thesis
    by (simp add: cat_dim2_def full_dim2_def zip_map1 zip_same_conv_map row)
qed

lemma left_pad_shape:
  "shape3 b h len x \<Longrightarrow> shape3 b h (n + len) (cat_dim2 (full_dim2 n v x) x)"
  by (auto simp: left_pad_eq shape3_iff shape2_iff)

lemma softmax_length: "length (softmax xs) = length xs"
  by (simp add: softmax_def)

lemma softmax_dim2_shape: "shape3 b n m x \<Longrightarrow> shape3 b n m (softmax_dim2 x)"
  by (auto simp: softmax_dim2_def shape3_iff shape2_iff softmax_length)

lemma transpose_m_twice_length:
  "shape2 s e m \<Longrightarrow> 0 < e \<Longrightarrow> length (transpose_m (transpose_m m)) = s"
  by (cases m) (auto simp: shape2_iff transpose_m_def upt_conv_Cons)

lemma matmul2_shape: "shape2 n k a \<Longrightarrow> shape2 n (length (transpose_m y)) (matmul2 a y)"
  by (auto simp: matmul2_def shape2_iff)

lemma matmul_shape:
  assumes "shape3 b n k x" "length y = b" "\<And>m. m \<in> set y \<Longrightarrow> length (transpose_m m) = c"
  shows "shape3 b n c (matmul x y)"
  using assms
  by (auto simp: matmul_def shape3_iff elim!: in_set_zipE dest!: matmul2_shape)

lemma transpose_m_length_rect:
  "shape2 s e m \<Longrightarrow> length (transpose_m m) = (if s = 0 then 0 else e)"
  by (cases m) (auto simp: shape2_iff transpose_m_def)

lemma calculate_attention_shape:
  assumes l1: "wf_linear h e (dec_attn_hid2emb q)" and l2: "wf_linear e h (dec_attn_emb2hid q)"
    and e: "0 < e" and h: "0 < h" and t: "0 < t"
    and emb: "shape3 b t e embedded" and cv: "shape3 b h t conved"
    and ec: "shape3 b s e ec" and em: "shape3 b s e em"
  shows "shape3 b t s (fst (calculate_attention q embedded conved ec em)) \<and>
         shape3 b h t (snd (calculate_attention q embedded conved ec em))"
proof -
  define conved_emb where "conved_emb = linear_fwd (dec_attn_hid2emb q) (permute021 conved)"
  define combined where "combined = mul_scalar (add3 embedded conved_emb) (dec_scale q)"
  define attention where "attention = softmax_dim2 (matmul combined (permute021 ec))"
  define att_enc where "att_enc = linear_fwd (dec_attn_emb2hid q) (matmul attention (add3 ec em))"
  have ce: "shape3 b t e conved_emb"
    unfolding conved_emb_def by (rule linear_fwd_shape [OF l1 permute021_shape [OF cv h]])
  have cb: "shape3 b t e combined"
    unfolding combined_def by (intro mul_scalar_shape add3_shape emb ce)
  have "shape3 b t s (matmul combined (permute021 ec))"
  proof (rule matmul_shape [OF cb])
    show "length (permute021 ec) = b" using ec by (simp add: permute021_def shape3_iff)
    fix m assume "m \<in> set (permute021 ec)"
    then obtain m' where "m' \<in> set ec" "m = transpose_m m'" by (auto simp: permute021_def)
    then show "length (transpose_m m) = s"
      using ec e by (auto simp: shape3_iff intro: transpose_m_twice_length)
  qed
  then have at: "shape3 b t s attention"
    unfolding attention_def by (rule softmax_dim2_shape)
  have sum: "shape3 b s e (add3 ec em)" by (rule add3_shape [OF ec em])
  have "shape3 b t (if s = 0 then 0 else e) (matmul attention (add3 ec em))"
  proof (rule matmul_shape [OF at])
    show "length (add3 ec em) = b" using sum by (simp add: shape3_iff)
    fix m assume "m \<in> set (add3 ec em)"
    then have "shape2 s e m" using sum by (simp add: shape3_iff)
    then show "length (transpose_m m) = (if s = 0 then 0 else e)"
      by (rule transpose_m_length_rect)
  qed
  then have ae: "shape3 b t h att_enc"
    unfolding att_enc_def by (rule linear_fwd_shape [OF l2])
  have ac: "shape3 b h t (mul_scalar (add3 conved (permute021 att_enc)) (dec_scale q))"
    by (intro mul_scalar_shape add3_shape cv permute021_shape [OF ae t])
  show ?thesis
    using at ac
    by (simp add: calculate_attention_def Let_def conved_emb_def combined_def attention_def
          att_enc_def)
qed

lemma decoder_stage_shape:
  assumes wf: "wf_decoder q" and c: "conv \<in> set (dec_convs q)"
    and t: "0 < t"
    and emb: "shape3 b t (dec_emb_dim q) embedded" and x: "shape3 b (dec_hid_dim q) t x"
    and ec: "shape3 b s (dec_emb_dim q) ec" and em: "shape3 b s (dec_emb_dim q) em"
  shows "\<exists>cv g. conv1d conv (cat_dim2 (full_dim2 (nat (dec_kernel_size q - 1))
                    (real_of_int (dec_pad_idx q)) (dropout dm (Suc i) x)) (dropout dm (Suc i) x))
                  = Inr cv \<and> shape3 b (2 * dec_hid_dim q) t cv \<and>
               glu_dim1 cv = Inr g \<and> shape3 b (dec_hid_dim q) t g \<and>
               decoder_stage q dm i embedded ec em conv x =
                 Inr (fst (calculate_attention q embedded g ec em),
                      mul_scalar (add3 (snd (calculate_attention q embedded g ec em))
                                    (dropout dm (Suc i) x)) (dec_scale q)) \<and>
               shape3 b t s (fst (calculate_attention q embedded g ec em)) \<and>
               shape3 b (dec_hid_dim q) t
                 (mul_scalar (add3 (snd (calculate_attention q embedded g ec em))
                                    (dropout dm (Suc i) x)) (dec_scale q))"
proof -
  let ?E = "dec_emb_dim q" and ?H = "dec_hid_dim q" and ?K = "dec_kernel_size q"
  let ?d = "dropout dm (Suc i) x"
  let ?pad = "cat_dim2 (full_dim2 (nat (?K - 1)) (real_of_int (dec_pad_idx q)) ?d) ?d"
  from wf have E: "0 < ?E" and H: "0 < ?H" and K: "0 < ?K"
    and l1: "wf_linear ?H ?E (dec_attn_hid2emb q)" and l2: "wf_linear ?E ?H (dec_attn_emb2hid q)"
    and cs: "list_all (wf_conv ?H (2 * ?H) (nat ?K) 0) (dec_convs q)"
    by (simp_all add: wf_decoder_def)
  from cs c have wc: "wf_conv ?H (2 * ?H) (nat ?K) 0 conv" by (simp add: list_all_iff)
  have d: "shape3 b ?H t ?d" by (rule dropout_shape [OF x])
  have pd: "shape3 b ?H (nat (?K - 1) + t) ?pad" by (rule left_pad_shape [OF d])
  have le: "nat ?K \<le> nat (?K - 1) + t + 2 * 0" using K t by linarith
  obtain cv where cv: "conv1d conv ?pad = Inr cv"
      "shape3 b (2 * ?H) (nat (?K - 1) + t + 2 * 0 + 1 - nat ?K) cv"
    using conv1d_shape [OF wc pd H le] by blast
  have "nat (?K - 1) + t + 2 * 0 + 1 - nat ?K = t" using K by linarith
  with cv(2) have cv': "shape3 b (2 * ?H) t cv" by simp
  obtain g where g: "glu_dim1 cv = Inr g" "shape3 b ?H t g"
    using glu_dim1_shape [OF cv'] by blast
  note ca = calculate_attention_shape [OF l1 l2 E H t emb g(2) ec em]
  have st: "decoder_stage q dm i embedded ec em conv x =
        Inr (fst (calculate_attention q embedded g ec em),
             mul_scalar (add3 (snd (calculate_attention q embedded g ec em)) ?d) (dec_scale q))"
    using K by (simp add: decoder_stage_def Let_def cv(1) g(1) split: prod.splits)
  have "shape3 b ?H t
      (mul_scalar (add3 (snd (calculate_attention q embedded g ec em)) ?d) (dec_scale q))"
    by (intro mul_scalar_shape add3_shape d conjunct2 [OF ca])
  with cv(1) cv' g st ca show ?thesis by blast
qed

lemma decoder_loop_shape:
  assumes wf: "wf_decoder q" and t: "0 < t"
    and emb: "shape3 b t (dec_emb_dim q) embedded"
    and ec: "shape3 b s (dec_emb_dim q) ec" and em: "shape3 b s (dec_emb_dim q) em"
  shows "set convs \<subseteq> set (dec_convs q) \<Longrightarrow> shape3 b (dec_hid_dim q) t x
     \<Longrightarrow> convs \<noteq> [] \<or> (\<exists>a c. bound = Some (a, c) \<and> shape3 b t s a \<and> shape3 b (dec_hid_dim q) t c)
     \<Longrightarrow> \<exists>a c. decoder_loop q dm i embedded ec em convs x bound = Inr (Some (a, c)) \<and>
               shape3 b t s a \<and> shape3 b (dec_hid_dim q) t c"
proof (induction convs arbitrary: i x bound)
  case Nil
  then show ?case by auto
next
  case (Cons conv convs)
  from Cons.prems(1) have c: "conv \<in> set (dec_convs q)" and cs: "set convs \<subseteq> set (dec_convs q)"
    by simp_all
  obtain a y where y: "decoder_stage q dm i embedded ec em conv x = Inr (a, y)"
      "shape3 b t s a" "shape3 b (dec_hid_dim q) t y"
    using decoder_stage_shape [OF wf c t emb Cons.prems(2) ec em, of dm i] by blast
  have "\<exists>a' c'. decoder_loop q dm (Suc i) embedded ec em convs y (Some (a, y)) = Inr (Some (a', c')) \<and>
               shape3 b t s a' \<and> shape3 b (dec_hid_dim q) t c'"
    by (rule Cons.IH [OF cs y(3)]) (simp add: y(2,3))
  then show ?case by (simp add: y(1))
qed

lemma decoder_forward_shape:
  assumes wf: "wf_decoder q" and layers: "dec_convs q \<noteq> []"
    and trg: "shape2 b t trg" and tok: "tokens_in_range (dec_output_dim q) trg"
    and t: "0 < t" "t \<le> 100"
    and ec: "shape3 b s (dec_emb_dim q) ec" and em: "shape3 b s (dec_emb_dim q) em"
  shows "\<exists>output attention. decoder_forward q dm trg ec em = Inr (output, attention) \<and>
           shape3 b t (dec_output_dim q) output \<and> shape3 b t s attention"
proof -
  let ?E = "dec_emb_dim q" and ?H = "dec_hid_dim q"
  from wf have E: "0 < ?E" and H: "0 < ?H"
    and tt: "shape2 (dec_output_dim q) ?E (dec_tok_embedding q)"
    and pt: "shape2 100 ?E (dec_pos_embedding q)"
    and l1: "wf_linear ?E ?H (dec_emb2hid q)" and l2: "wf_linear ?H ?E (dec_hid2emb q)"
    and lo: "wf_linear ?E (dec_output_dim q) (dec_out q)"
    by (simp_all add: wf_decoder_def)
  obtain te where te: "embedding (dec_tok_embedding q) trg = Inr te" "shape3 b t ?E te"
    using embedding_shape [OF tt trg tok] by blast
  obtain pe where pe: "embedding (dec_pos_embedding q) (arange_rows trg) = Inr pe"
      "shape3 b t ?E pe"
    using embedding_shape [OF pt arange_rows_shape [OF trg] arange_rows_in_range [OF trg t(2)]]
    by blast
  define embedded where "embedded = dropout dm 0 (add3 te pe)"
  define conv_input where "conv_input = permute021 (linear_fwd (dec_emb2hid q) embedded)"
  have emb: "shape3 b t ?E embedded"
    unfolding embedded_def by (intro dropout_shape add3_shape te(2) pe(2))
  have ci: "shape3 b ?H t conv_input"
    unfolding conv_input_def
    by (rule permute021_shape [OF linear_fwd_shape [OF l1 emb] t(1)])
  obtain a y where y: "decoder_loop q dm 0 embedded ec em (dec_convs q) conv_input None
        = Inr (Some (a, y))" "shape3 b t s a" "shape3 b ?H t y"
    using decoder_loop_shape [OF wf t(1) emb ec em subset_refl ci, of None dm 0] layers by blast
  define conved where "conved = linear_fwd (dec_hid2emb q) (permute021 y)"
  define logits where
    "logits = linear_fwd (dec_out q) (dropout dm (Suc (length (dec_convs q))) conved)"
  have cv: "shape3 b t ?E conved"
    unfolding conved_def by (rule linear_fwd_shape [OF l2 permute021_shape [OF y(3) H]])
  have out: "shape3 b t (dec_output_dim q) logits"
    unfolding logits_def by (rule linear_fwd_shape [OF lo dropout_shape [OF cv]])
  have "decoder_forward q dm trg ec em = Inr (logits, a)"
    by (simp add: decoder_forward_def Let_def te(1) pe(1) y(1)
          embedded_def [symmetric] conv_input_def [symmetric] conved_def [symmetric]
          logits_def [symmetric])
  with out y(2) show ?thesis by blast
qed

section \<open>The shapes of the results\<close>

text \<open>
  Claim C3, corrected. As stated, for all lengths \<open>S, T \<le> 100\<close>, the claim fails at
  length 0: a batch with one row and no token has shape \<open>(1, 0)\<close>, its length is below
  100 and it holds no token outside the vocabulary, yet the first convolution of either
  module refuses it (the padded sequence is shorter than the kernel), so neither forward
  pass returns a tensor; the counterexample follows the amended theorem.

  Amended: for well-formed modules with at least one layer, a source batch of shape
  \<open>(b, s)\<close> and a target batch of shape \<open>(b, t)\<close> with \<open>1 \<le> s, t \<le> 100\<close> and
  token ids inside the vocabularies, and in either mode of dropout: the forward pass of
  the encoder returns two tensors of shape \<open>(b, s, emb_dim)\<close>, and the forward pass of
  the decoder, given two encoder outputs of shape \<open>(b, s, emb_dim)\<close>, returns logits
  of shape \<open>(b, t, output_dim)\<close> and attention of shape \<open>(b, t, s)\<close>.
\<close>

theorem forward_shapes:
  assumes "wf_encoder p" and "enc_convs p \<noteq> []"
    and "wf_decoder q" and "dec_convs q \<noteq> []"
    and "shape2 b s src" and "tokens_in_range (enc_input_dim p) src"
    and "0 < s" and "s \<le> 100"
    and "shape2 b t trg" and "tokens_in_range (dec_output_dim q) trg"
    and "0 < t" and "t \<le> 100"
    and "shape3 b s (dec_emb_dim q) encoder_conved"
    and "shape3 b s (dec_emb_dim q) encoder_combined"
  shows "(\<exists>conved combined. encoder_forward p dme src = Inr (conved, combined) \<and>
            shape3 b s (enc_emb_dim p) conved \<and> shape3 b s (enc_emb_dim p) combined) \<and>
         (\<exists>output attention.
            decoder_forward q dmd trg encoder_conved encoder_combined = Inr (output, attention) \<and>
            shape3 b t (dec_output_dim q) output \<and> shape3 b t s attention)"
  using encoder_forward_shape [OF assms(1,2,5,6,7,8)]
    decoder_forward_shape [OF assms(3,4,9,10,11,12,13,14)]
  by blast

theorem forward_shapes_witness:
  "\<exists>p q. Encoder_init 10 8 16 2 3 (\<lambda>name ix. 0) = Inr p \<and>
         Decoder_init 12 8 16 2 3 0 (\<lambda>name ix. 0) = Inr q \<and>
         (\<exists>conved combined.
            encoder_forward p Inference [[1, 2, 3, 4], [5, 6, 7, 8]] = Inr (conved, combined) \<and>
            shape3 2 4 8 conved \<and> shape3 2 4 8 combined \<and>
            (\<exists>output attention.
               decoder_forward q Inference [[1, 2, 3], [4, 5, 6]] conved combined
                 = Inr (output, attention) \<and>
               shape3 2 3 12 output \<and> shape3 2 3 4 attention))"
proof -
  obtain p where p: "Encoder_init 10 8 16 2 3 (\<lambda>name ix. 0) = Inr p"
    by (simp add: Encoder_init_def)
  obtain q where q: "Decoder_init 12 8 16 2 3 0 (\<lambda>name ix. 0) = Inr q"
    by (simp add: Decoder_init_def)
  have wp: "wf_encoder p" and pv: "enc_input_dim p = 10" and pe: "enc_emb_dim p = 8"
    and pn: "enc_convs p \<noteq> []"
    using Encoder_init_wf [OF p] by auto
  have wq: "wf_decoder q" and qv: "dec_output_dim q = 12" and qe: "dec_emb_dim q = 8"
    and qn: "dec_convs q \<noteq> []"
    using Decoder_init_wf [OF q] by auto
  have src: "shape2 2 4 [[1, 2, 3, 4], [5, 6, 7, 8::int]]"
    and trg: "shape2 2 3 [[1, 2, 3], [4, 5, 6::int]]"
    by (simp_all add: shape2_def)
  have ts: "tokens_in_range (enc_input_dim p) [[1, 2, 3, 4], [5, 6, 7, 8]]"
    and tt: "tokens_in_range (dec_output_dim q) [[1, 2, 3], [4, 5, 6]]"
    by (simp_all add: pv qv tokens_in_range_def)
  have z: "shape3 2 4 (dec_emb_dim q) (replicate 2 (replicate 4 (replicate 8 (0::real))))"
    by (simp add: qe shape3_iff shape2_iff)
  obtain conved combined where
    e: "encoder_forward p Inference [[1, 2, 3, 4], [5, 6, 7, 8]] = Inr (conved, combined)"
      "shape3 2 4 8 conved" "shape3 2 4 8 combined"
    using forward_shapes [OF wp pn wq qn src ts _ _ trg tt _ _ z z, of Inference Inference] pe
    by auto
  have "\<exists>output attention.
          decoder_forward q Inference [[1, 2, 3], [4, 5, 6]] conved combined
            = Inr (output, attention) \<and>
          shape3 2 3 12 output \<and> shape3 2 3 4 attention"
    using forward_shapes [OF wp pn wq qn src ts _ _ trg tt _ _, of conved combined
        Inference Inference] e(2,3) qe qv
    by auto
  with p q e show ?thesis by blast
qed

text \<open>
  The claim as stated, at length 0. The modules are the ones the constructors build
  (two layers, kernel size 3): they are well-formed and the batch \<open>[[]]\<close> meets every
  condition of the claim, with \<open>B = 1\<close> and \<open>S = 0\<close>, respectively \<open>T = 0\<close>; both
  forward passes raise \<^verbatim>\<open>RuntimeError\<close>.
\<close>

theorem forward_shapes_counterexample:
  "\<exists>p q. Encoder_init 10 8 16 2 3 (\<lambda>name ix. 0) = Inr p \<and>
         Decoder_init 12 8 16 2 3 0 (\<lambda>name ix. 0) = Inr q \<and>
         wf_encoder p \<and> enc_convs p \<noteq> [] \<and> wf_decoder q \<and> dec_convs q \<noteq> [] \<and>
         shape2 1 0 [[] :: int list] \<and> (0 :: nat) \<le> 100 \<and>
         tokens_in_range (enc_input_dim p) [[]] \<and> tokens_in_range (dec_output_dim q) [[]] \<and>
         shape3 1 4 (dec_emb_dim q) (replicate 1 (replicate 4 (replicate 8 (1 :: real)))) \<and>
         encoder_forward p Inference [[]] = Inl RuntimeError \<and>
         decoder_forward q Inference [[]] (replicate 1 (replicate 4 (replicate 8 1)))
           (replicate 1 (replicate 4 (replicate 8 1))) = Inl RuntimeError"
proof -
  obtain p where p: "Encoder_init 10 8 16 2 3 (\<lambda>name ix. 0) = Inr p"
    by (simp add: Encoder_init_def)
  obtain q where q: "Decoder_init 12 8 16 2 3 0 (\<lambda>name ix. 0) = Inr q"
    by (simp add: Decoder_init_def)
  have wp: "wf_encoder p" and pn: "enc_convs p \<noteq> []"
    using Encoder_init_wf [OF p] by auto
  have wq: "wf_decoder q" and qe: "dec_emb_dim q = 8" and qn: "dec_convs q \<noteq> []"
    using Decoder_init_wf [OF q] by auto
  have sh: "shape2 1 0 [[] :: int list]" by (simp add: shape2_def)
  have tk: "tokens_in_range (enc_input_dim p) [[]]" "tokens_in_range (dec_output_dim q) [[]]"
    by (simp_all add: tokens_in_range_def)
  have ec: "shape3 1 4 (dec_emb_dim q) (replicate 1 (replicate 4 (replicate 8 (1::real))))"
    by (simp add: qe shape3_iff shape2_iff)
  have e: "encoder_forward p Inference [[]] = Inl RuntimeError"
    using p
    by (auto simp: Encoder_init_def encoder_forward_def embedding_def arange_rows_def
          add3_def dropout_def linear_fwd_def permute021_def transpose_m_def
          encoder_stage_def conv1d_def conv1d_seq_def seq_len_def nn_Conv1d_def
          numeral_2_eq_2 Let_def)
  have d: "decoder_forward q Inference [[]] (replicate 1 (replicate 4 (replicate 8 1)))
             (replicate 1 (replicate 4 (replicate 8 1))) = Inl RuntimeError"
    using q
    by (auto simp: Decoder_init_def decoder_forward_def embedding_def arange_rows_def
          add3_def dropout_def linear_fwd_def permute021_def transpose_m_def
          decoder_stage_def conv1d_def conv1d_seq_def seq_len_def nn_Conv1d_def
          full_dim2_def cat_dim2_def numeral_2_eq_2 Let_def)
  from p q wp pn wq qn sh tk ec e d show ?thesis by simp
qed

section \<open>The wrapper is the composition of its parts\<close>

text \<open>
  Claim C4. The forward pass of the wrapper is the forward pass of the decoder on the
  target batch and the two results of the forward pass of the encoder on the source
  batch, and nothing else: a failure of the encoder is the failure of the wrapper, and
  when the encoder returns \<open>(c, cm)\<close> the wrapper returns exactly what the decoder
  returns on them, its failure included.
\<close>

theorem seq2seq_pure_composition:
  "seq2seq_forward m dme dmd src trg =
     (case encoder_forward (s2s_encoder m) dme src of Inl e \<Rightarrow> Inl e
      | Inr (c, cm) \<Rightarrow> decoder_forward (s2s_decoder m) dmd trg c cm) \<and>
   (encoder_forward (s2s_encoder m) dme src = Inl e \<longrightarrow>
      seq2seq_forward m dme dmd src trg = Inl e) \<and>
   (encoder_forward (s2s_encoder m) dme src = Inr (c, cm) \<longrightarrow>
      seq2seq_forward m dme dmd src trg = decoder_forward (s2s_decoder m) dmd trg c cm)"
  unfolding seq2seq_forward_def
  by (auto split: sum.splits prod.splits)

theorem seq2seq_pure_composition_witness:
  "\<exists>p q. Encoder_init 10 8 16 2 3 (\<lambda>name ix. 0) = Inr p \<and>
         Decoder_init 12 8 16 2 3 0 (\<lambda>name ix. 0) = Inr q \<and>
         encoder_forward p Inference [[1, 2, 3, 10]] = Inl IndexError \<and>
         seq2seq_forward \<lparr>s2s_encoder = p, s2s_decoder = q\<rparr> Inference Inference
           [[1, 2, 3, 10]] [[1, 2, 3]] = Inl IndexError \<and>
         (\<exists>c cm. encoder_forward p Inference [[1, 2, 3, 4]] = Inr (c, cm) \<and>
            seq2seq_forward \<lparr>s2s_encoder = p, s2s_decoder = q\<rparr> Inference Inference
              [[1, 2, 3, 4]] [[1, 2, 3]] = decoder_forward q Inference [[1, 2, 3]] c cm)"
proof -
  obtain p where p: "Encoder_init 10 8 16 2 3 (\<lambda>name ix. 0) = Inr p"
    by (simp add: Encoder_init_def)
  obtain q where q: "Decoder_init 12 8 16 2 3 0 (\<lambda>name ix. 0) = Inr q"
    by (simp add: Decoder_init_def)
  let ?m = "\<lparr>s2s_encoder = p, s2s_decoder = q\<rparr>"
  have wp: "wf_encoder p" and pv: "enc_input_dim p = 10" and pn: "enc_convs p \<noteq> []"
    using Encoder_init_wf [OF p] by auto
  have lt: "length (enc_tok_embedding p) = 10"
    using wp pv by (simp add: wf_encoder_def shape2_iff)
  have bad: "encoder_forward p Inference [[1, 2, 3, 10]] = Inl IndexError"
    by (simp add: encoder_forward_def embedding_eq lt tokens_in_range_def)
  have sbad: "seq2seq_forward ?m Inference Inference [[1, 2, 3, 10]] [[1, 2, 3]] = Inl IndexError"
    using seq2seq_pure_composition [of ?m Inference Inference "[[1, 2, 3, 10]]" "[[1, 2, 3]]"
        IndexError] bad
    by simp
  have src: "shape2 1 4 [[1, 2, 3, 4::int]]" by (simp add: shape2_def)
  have ts: "tokens_in_range (enc_input_dim p) [[1, 2, 3, 4]]"
    by (simp add: pv tokens_in_range_def)
  obtain c cm where ok: "encoder_forward p Inference [[1, 2, 3, 4]] = Inr (c, cm)"
    using encoder_forward_shape [OF wp pn src ts, of Inference] by auto
  have sok: "seq2seq_forward ?m Inference Inference [[1, 2, 3, 4]] [[1, 2, 3]]
      = decoder_forward q Inference [[1, 2, 3]] c cm"
    using seq2seq_pure_composition [of ?m Inference Inference "[[1, 2, 3, 4]]" "[[1, 2, 3]]"
        _ c cm] ok
    by simp
  from p q bad sbad ok sok show ?thesis by blast
qed

section \<open>The gated linear unit\<close>

lemma glu_dim1_eq: "shape3 b (2 * h) len x \<Longrightarrow> glu_dim1 x = Inr (map glu_apply x)"
  unfolding glu_dim1_def
  by (intro traverse_total) (auto simp: glu_seq_def shape3_iff shape2_iff)

lemma shape3_nth: "shape3 b n m x \<Longrightarrow> i < b \<Longrightarrow> shape2 n m (x ! i)"
  by (simp add: shape3_def list_all_length)

lemma encoder_stage_Inr:
  "encoder_stage dm i scale conv x = Inr r \<Longrightarrow>
     \<exists>conved g. conv1d conv (dropout dm (Suc i) x) = Inr conved \<and> glu_dim1 conved = Inr g \<and>
       r = mul_scalar (add3 g x) scale"
  by (auto simp: encoder_stage_def split: sum.splits)

lemma decoder_stage_Inr:
  "decoder_stage q dm i embedded ec em conv x = Inr r \<Longrightarrow>
     0 < dec_kernel_size q \<and>
     (\<exists>conved g.
       conv1d conv (cat_dim2 (full_dim2 (nat (dec_kernel_size q - 1))
                       (real_of_int (dec_pad_idx q)) (dropout dm (Suc i) x))
                     (dropout dm (Suc i) x)) = Inr conved \<and>
       glu_dim1 conved = Inr g \<and>
       r = (fst (calculate_attention q embedded g ec em),
            mul_scalar (add3 (snd (calculate_attention q embedded g ec em))
                          (dropout dm (Suc i) x)) (dec_scale q)))"
  by (auto simp: decoder_stage_def Let_def split: sum.splits if_splits prod.splits)

text \<open>
  Claim C8. On a tensor with \<open>2 * h\<close> channels the gated linear unit along the channel
  axis succeeds and returns \<open>h\<close> channels: the entry at channel \<open>c\<close> is the entry of
  channel \<open>c\<close> of the input times the sigmoid \<open>1 / (1 + exp (- z))\<close> of the entry
  \<open>z\<close> of channel \<open>h + c\<close>. A stage of the encoder and a stage of the decoder that
  return have applied this function to the result of their convolution.
\<close>

theorem glu_gated_product:
  "(shape3 b (2 * h) len x \<longrightarrow>
      (\<exists>y. glu_dim1 x = Inr y \<and> shape3 b h len y \<and>
           (\<forall>n<b. \<forall>c<h. \<forall>t<len.
              y ! n ! c ! t = x ! n ! c ! t * (1 / (1 + exp (- (x ! n ! (h + c) ! t))))))) \<and>
   (encoder_stage dm i scale conv conv_input = Inr r \<longrightarrow>
      (\<exists>conved g. conv1d conv (dropout dm (Suc i) conv_input) = Inr conved \<and>
         glu_dim1 conved = Inr g \<and> r = mul_scalar (add3 g conv_input) scale)) \<and>
   (decoder_stage q dm i embedded ec em conv' conv_input' = Inr r' \<longrightarrow>
      (\<exists>conved g.
         conv1d conv' (cat_dim2 (full_dim2 (nat (dec_kernel_size q - 1))
                          (real_of_int (dec_pad_idx q)) (dropout dm (Suc i) conv_input'))
                        (dropout dm (Suc i) conv_input')) = Inr conved \<and>
         glu_dim1 conved = Inr g \<and>
         r' = (fst (calculate_attention q embedded g ec em),
               mul_scalar (add3 (snd (calculate_attention q embedded g ec em))
                             (dropout dm (Suc i) conv_input')) (dec_scale q))))"
proof (intro conjI impI)
  assume x: "shape3 b (2 * h) len x"
  have eq: "glu_dim1 x = Inr (map glu_apply x)" by (rule glu_dim1_eq [OF x])
  have sh: "shape3 b h len (map glu_apply x)"
    by (rule shape3_map [OF x]) (rule glu_apply_shape)
  have el: "\<forall>n<b. \<forall>c<h. \<forall>t<len.
      map glu_apply x ! n ! c ! t = x ! n ! c ! t * (1 / (1 + exp (- (x ! n ! (h + c) ! t))))"
  proof (intro allI impI)
    fix n c t assume n: "n < b" and c: "c < h" and t: "t < len"
    have lx: "length x = b" using x by (simp add: shape3_def)
    have "glu_apply (x ! n) ! c ! t = x ! n ! c ! t * sigmoid (x ! n ! (h + c) ! t)"
      by (rule glu_apply_nth [OF shape3_nth [OF x n] c t])
    then show "map glu_apply x ! n ! c ! t
        = x ! n ! c ! t * (1 / (1 + exp (- (x ! n ! (h + c) ! t))))"
      using n lx by (simp add: sigmoid_def)
  qed
  from eq sh el
  show "\<exists>y. glu_dim1 x = Inr y \<and> shape3 b h len y \<and>
           (\<forall>n<b. \<forall>c<h. \<forall>t<len.
              y ! n ! c ! t = x ! n ! c ! t * (1 / (1 + exp (- (x ! n ! (h + c) ! t)))))"
    by blast
next
  assume "encoder_stage dm i scale conv conv_input = Inr r"
  then show "\<exists>conved g. conv1d conv (dropout dm (Suc i) conv_input) = Inr conved \<and>
         glu_dim1 conved = Inr g \<and> r = mul_scalar (add3 g conv_input) scale"
    by (rule encoder_stage_Inr)
next
  assume "decoder_stage q dm i embedded ec em conv' conv_input' = Inr r'"
  from decoder_stage_Inr [OF this]
  show "\<exists>conved g.
         conv1d conv' (cat_dim2 (full_dim2 (nat (dec_kernel_size q - 1))
                          (real_of_int (dec_pad_idx q)) (dropout dm (Suc i) conv_input'))
                        (dropout dm (Suc i) conv_input')) = Inr conved \<and>
         glu_dim1 conved = Inr g \<and>
         r' = (fst (calculate_attention q embedded g ec em),
               mul_scalar (add3 (snd (calculate_attention q embedded g ec em))
                             (dropout dm (Suc i) conv_input')) (dec_scale q))"
    by blast
qed

theorem glu_gated_product_witness:
  "(\<exists>y. glu_dim1 [[[3, 5], [7, 11]]] = Inr y \<and> shape3 1 1 2 y \<and>
        y ! 0 ! 0 ! 0 = 3 * (1 / (1 + exp (- 7))) \<and>
        y ! 0 ! 0 ! 1 = 5 * (1 / (1 + exp (- 11)))) \<and>
   (\<exists>p q conv conv' r r' conved g conved' g'.
      Encoder_init 10 8 16 2 3 (\<lambda>name ix. 0) = Inr p \<and> conv \<in> set (enc_convs p) \<and>
      Decoder_init 12 8 16 2 3 0 (\<lambda>name ix. 0) = Inr q \<and> conv' \<in> set (dec_convs q) \<and>
      encoder_stage Inference 0 (enc_scale p) conv (replicate 2 (replicate 16 (replicate 4 1)))
        = Inr r \<and>
      conv1d conv (dropout Inference (Suc 0) (replicate 2 (replicate 16 (replicate 4 1)))) = Inr conved \<and>
      glu_dim1 conved = Inr g \<and>
      r = mul_scalar (add3 g (replicate 2 (replicate 16 (replicate 4 1)))) (enc_scale p) \<and>
      decoder_stage q Inference 0 (replicate 2 (replicate 3 (replicate 8 1)))
        (replicate 2 (replicate 4 (replicate 8 1))) (replicate 2 (replicate 4 (replicate 8 1)))
        conv' (replicate 2 (replicate 16 (replicate 3 1))) = Inr r' \<and>
      conv1d conv' (cat_dim2 (full_dim2 (nat (dec_kernel_size q - 1))
                       (real_of_int (dec_pad_idx q))
                       (dropout Inference (Suc 0) (replicate 2 (replicate 16 (replicate 3 1)))))
                     (dropout Inference (Suc 0) (replicate 2 (replicate 16 (replicate 3 1)))))
        = Inr conved' \<and>
      glu_dim1 conved' = Inr g')"
proof -
  have x: "shape3 1 (2 * 1) 2 [[[3, 5], [7, 11::real]]]"
    by (simp add: shape3_def shape2_def)
  have a: "\<exists>y. glu_dim1 [[[3, 5], [7, 11]]] = Inr y \<and> shape3 1 1 2 y \<and>
        y ! 0 ! 0 ! 0 = 3 * (1 / (1 + exp (- 7))) \<and>
        y ! 0 ! 0 ! 1 = 5 * (1 / (1 + exp (- 11)))"
  proof -
    obtain y where y: "glu_dim1 [[[3, 5], [7, 11]]] = Inr y" "shape3 1 1 2 y"
      and el: "\<forall>n<1. \<forall>c<1. \<forall>t<2. y ! n ! c ! t
          = [[[3, 5], [7, 11]]] ! n ! c ! t * (1 / (1 + exp (- ([[[3, 5], [7, 11]]] ! n ! (1 + c) ! t))))"
      using glu_gated_product [where b = 1 and h = 1 and len = 2 and x = "[[[3, 5], [7, 11]]]",
          THEN conjunct1, THEN mp, OF x]
      by blast
    have "y ! 0 ! 0 ! 0 = 3 * (1 / (1 + exp (- 7)))"
      using el [rule_format, of 0 0 0] by simp
    moreover have "y ! 0 ! 0 ! 1 = 5 * (1 / (1 + exp (- 11)))"
      using el [rule_format, of 0 0 1] by simp
    ultimately show ?thesis using y by blast
  qed
  obtain p where p: "Encoder_init 10 8 16 2 3 (\<lambda>name ix. 0) = Inr p"
    by (simp add: Encoder_init_def)
  obtain q where q: "Decoder_init 12 8 16 2 3 0 (\<lambda>name ix. 0) = Inr q"
    by (simp add: Decoder_init_def)
  have wp: "wf_encoder p" and pH: "enc_hid_dim p = 16" and pn: "length (enc_convs p) = 2"
    using Encoder_init_wf [OF p] by auto
  have wq: "wf_decoder q" and qH: "dec_hid_dim q = 16" and qE: "dec_emb_dim q = 8"
    and qn: "length (dec_convs q) = 2"
    using Decoder_init_wf [OF q] by auto
  from pn obtain conv where conv: "conv \<in> set (enc_convs p)" by (cases "enc_convs p") auto
  from qn obtain conv' where conv': "conv' \<in> set (dec_convs q)" by (cases "dec_convs q") auto
  let ?x = "replicate 2 (replicate 16 (replicate 4 (1::real)))"
  let ?x' = "replicate 2 (replicate 16 (replicate 3 (1::real)))"
  let ?emb = "replicate 2 (replicate 3 (replicate 8 (1::real)))"
  let ?ec = "replicate 2 (replicate 4 (replicate 8 (1::real)))"
  from wp have H: "0 < enc_hid_dim p"
    and k: "0 < enc_kernel_size p" "enc_kernel_size p mod 2 = 1"
    and cs: "list_all (wf_conv (enc_hid_dim p) (2 * enc_hid_dim p) (nat (enc_kernel_size p))
                  (nat ((enc_kernel_size p - 1) div 2))) (enc_convs p)"
    by (simp_all add: wf_encoder_def)
  from cs conv have c: "wf_conv (enc_hid_dim p) (2 * enc_hid_dim p)
      (nat (enc_kernel_size p)) (nat ((enc_kernel_size p - 1) div 2)) conv"
    by (simp add: list_all_iff)
  have sx: "shape3 2 (enc_hid_dim p) 4 ?x" by (simp add: pH shape3_iff shape2_iff)
  obtain r where r: "encoder_stage Inference 0 (enc_scale p) conv ?x = Inr r"
    using encoder_stage_shape [OF c k H sx, of Inference 0 "enc_scale p"] by auto
  obtain conved g where e: "conv1d conv (dropout Inference (Suc 0) ?x) = Inr conved"
      "glu_dim1 conved = Inr g" "r = mul_scalar (add3 g ?x) (enc_scale p)"
    using glu_gated_product [where dm = Inference and i = 0 and scale = "enc_scale p"
        and conv = conv and conv_input = ?x and r = r, THEN conjunct2, THEN conjunct1,
        THEN mp, OF r]
    by blast
  have sx': "shape3 2 (dec_hid_dim q) 3 ?x'" by (simp add: qH shape3_iff shape2_iff)
  have semb: "shape3 2 3 (dec_emb_dim q) ?emb" by (simp add: qE shape3_iff shape2_iff)
  have sec: "shape3 2 4 (dec_emb_dim q) ?ec" by (simp add: qE shape3_iff shape2_iff)
  obtain r' where r': "decoder_stage q Inference 0 ?emb ?ec ?ec conv' ?x' = Inr r'"
    using decoder_stage_shape [OF wq conv' _ semb sx' sec sec, of Inference 0] by auto
  obtain conved' g' where d:
      "conv1d conv' (cat_dim2 (full_dim2 (nat (dec_kernel_size q - 1))
                       (real_of_int (dec_pad_idx q)) (dropout Inference (Suc 0) ?x'))
                     (dropout Inference (Suc 0) ?x')) = Inr conved'"
      "glu_dim1 conved' = Inr g'"
    using glu_gated_product [where dm = Inference and i = 0 and q = q and embedded = ?emb
        and ec = ?ec and em = ?ec and conv' = conv' and conv_input' = ?x' and r' = r',
        THEN conjunct2, THEN conjunct2, THEN mp, OF r']
    by blast
  from a p q conv conv' r e r' d show ?thesis by blast
qed

section \<open>The attention weights\<close>

lemma sum_list_exp_pos: "xs \<noteq> [] \<Longrightarrow> 0 < sum_list (map exp (xs::real list))"
proof -
  assume "xs \<noteq> []"
  then obtain a ys where xs: "xs = a # ys" by (cases xs) auto
  have "0 \<le> sum_list (map exp ys)" by (rule sum_list_nonneg) auto
  moreover have "0 < exp a" by simp
  ultimately show ?thesis unfolding xs by (simp add: add_pos_nonneg)
qed

lemma softmax_sum: "xs \<noteq> [] \<Longrightarrow> sum_list (softmax xs) = 1"
proof -
  assume "xs \<noteq> []"
  then have pos: "0 < sum_list (map exp xs)" by (rule sum_list_exp_pos)
  have "sum_list (softmax xs) = sum_list (map exp xs) * inverse (sum_list (map exp xs))"
    by (simp add: softmax_def divide_inverse sum_list_mult_const)
  then show ?thesis using pos by simp
qed

lemma softmax_nonneg: "v \<in> set (softmax xs) \<Longrightarrow> 0 \<le> v"
  by (auto simp: softmax_def intro!: divide_nonneg_nonneg sum_list_nonneg)

lemma attention_rows:
  assumes ec: "shape3 b s e ec" and s: "0 < s" and e: "0 < e"
    and m: "m \<in> set (fst (calculate_attention q embedded conved ec em))" and row: "row \<in> set m"
  shows "length row = s \<and> sum_list row = 1 \<and> (\<forall>v\<in>set row. 0 \<le> v)"
proof -
  define combined where "combined = mul_scalar (add3 embedded
      (linear_fwd (dec_attn_hid2emb q) (permute021 conved))) (dec_scale q)"
  have "fst (calculate_attention q embedded conved ec em)
      = softmax_dim2 (matmul combined (permute021 ec))"
    by (simp add: calculate_attention_def Let_def combined_def)
  with m obtain cb ect where z: "(cb, ect) \<in> set (zip combined (permute021 ec))"
    and m': "m = map softmax (matmul2 cb ect)"
    by (auto simp: softmax_dim2_def matmul_def)
  from z have "ect \<in> set (permute021 ec)" by (rule set_zip_rightD)
  then obtain ecb where ecb: "ecb \<in> set ec" "ect = transpose_m ecb"
    by (auto simp: permute021_def)
  from ecb(1) ec have "shape2 s e ecb" by (simp add: shape3_iff)
  then have len: "length (transpose_m ect) = s"
    unfolding ecb(2) using e by (rule transpose_m_twice_length)
  from row m' obtain r where r: "row = softmax (map (dot r) (transpose_m ect))"
    by (auto simp: matmul2_def)
  have ne: "map (dot r) (transpose_m ect) \<noteq> []" using len s by auto
  have "length row = s" unfolding r by (simp add: softmax_length len)
  moreover have "sum_list row = 1" unfolding r using ne by (rule softmax_sum)
  moreover have "\<forall>v\<in>set row. 0 \<le> v" unfolding r by (auto dest: softmax_nonneg)
  ultimately show ?thesis by simp
qed

lemma decoder_loop_attention:
  assumes stage: "\<And>i conv x a y. decoder_stage q dm i embedded ec em conv x = Inr (a, y) \<Longrightarrow> P a"
  shows "decoder_loop q dm i embedded ec em convs x bound = Inr (Some (a, c))
     \<Longrightarrow> (\<And>a0 c0. bound = Some (a0, c0) \<Longrightarrow> P a0) \<Longrightarrow> P a"
proof (induction convs arbitrary: i x bound)
  case Nil
  then show ?case by auto
next
  case (Cons conv convs)
  from Cons.prems(1) obtain a1 y1 where
    st: "decoder_stage q dm i embedded ec em conv x = Inr (a1, y1)"
    and lp: "decoder_loop q dm (Suc i) embedded ec em convs y1 (Some (a1, y1)) = Inr (Some (a, c))"
    by (auto split: sum.splits)
  show ?case
    by (rule Cons.IH [OF lp]) (use stage [OF st] in simp)
qed

text \<open>
  Claim C2, corrected. As stated, for every source length \<open>S\<close>, the claim fails at
  \<open>S = 0\<close>: given encoder outputs of shape \<open>(B, 0, emb_dim)\<close> the decoder returns an
  attention tensor of shape \<open>(B, T, 0)\<close>; the softmax of a row without entries is a
  row without entries, and its sum is 0, not 1; the counterexample follows the amended
  theorem.

  Amended: for every source length \<open>S \<ge> 1\<close>. For a well-formed decoder, a target
  batch of shape \<open>(b, t)\<close> and two encoder outputs of shape \<open>(b, s, emb_dim)\<close> with
  \<open>s \<ge> 1\<close>, and in either mode of dropout: whenever the forward pass of the decoder
  returns, every row of the attention tensor (one row for each batch element and each
  target position) has \<open>s\<close> entries, none of them negative, and they sum to 1, exactly
  over the reals. The hypotheses on the shapes give the three tensors one batch size,
  as the documented dimensions do: the sums and products of the model pair the batch
  elements of their arguments.
\<close>

theorem attention_row_stochastic:
  assumes "wf_decoder q"
    and "shape2 b t trg"
    and "shape3 b s (dec_emb_dim q) encoder_conved"
    and "shape3 b s (dec_emb_dim q) encoder_combined"
    and "0 < s"
    and "decoder_forward q dm trg encoder_conved encoder_combined = Inr (output, attention)"
  shows "\<forall>m\<in>set attention. \<forall>row\<in>set m.
           length row = s \<and> sum_list row = 1 \<and> (\<forall>v\<in>set row. 0 \<le> v)"
proof -
  let ?P = "\<lambda>a. \<forall>m\<in>set a. \<forall>row\<in>set m.
      length row = s \<and> sum_list row = 1 \<and> (\<forall>v\<in>set row. 0 \<le> (v::real))"
  from assms(1) have e: "0 < dec_emb_dim q" by (simp add: wf_decoder_def)
  from assms(6) obtain embedded conv_input conved where
    lp: "decoder_loop q dm 0 embedded encoder_conved encoder_combined (dec_convs q) conv_input None
           = Inr (Some (attention, conved))"
    by (auto simp: decoder_forward_def Let_def split: sum.splits option.splits prod.splits)
  have stage: "\<And>i conv x a y.
      decoder_stage q dm i embedded encoder_conved encoder_combined conv x = Inr (a, y) \<Longrightarrow> ?P a"
  proof -
    fix i conv x a y
    assume "decoder_stage q dm i embedded encoder_conved encoder_combined conv x = Inr (a, y)"
    from decoder_stage_Inr [OF this] obtain g where
      "a = fst (calculate_attention q embedded g encoder_conved encoder_combined)"
      by auto
    then show "?P a"
      using attention_rows [OF assms(3,5) e] by blast
  qed
  have none: "\<And>a0 c0. (None :: (tensor3 \<times> tensor3) option) = Some (a0, c0) \<Longrightarrow> ?P a0"
    by simp
  show ?thesis
    by (rule decoder_loop_attention [where P = ?P, OF stage lp none])
qed

theorem attention_row_stochastic_witness:
  "\<exists>q output attention.
     Decoder_init 12 8 16 2 3 0 (\<lambda>name ix. 0) = Inr q \<and>
     decoder_forward q Inference [[1, 2, 3], [4, 5, 6]]
       (replicate 2 (replicate 4 (replicate 8 1))) (replicate 2 (replicate 4 (replicate 8 1)))
       = Inr (output, attention) \<and>
     shape3 2 3 4 attention \<and>
     sum_list (attention ! 0 ! 0) = 1 \<and> sum_list (attention ! 1 ! 2) = 1 \<and>
     0 \<le> attention ! 1 ! 2 ! 3"
proof -
  let ?ec = "replicate 2 (replicate 4 (replicate 8 (1::real)))"
  obtain q where q: "Decoder_init 12 8 16 2 3 0 (\<lambda>name ix. 0) = Inr q"
    by (simp add: Decoder_init_def)
  have wq: "wf_decoder q" and qv: "dec_output_dim q = 12" and qe: "dec_emb_dim q = 8"
    and qn: "dec_convs q \<noteq> []"
    using Decoder_init_wf [OF q] by auto
  have trg: "shape2 2 3 [[1, 2, 3], [4, 5, 6::int]]" by (simp add: shape2_def)
  have tt: "tokens_in_range (dec_output_dim q) [[1, 2, 3], [4, 5, 6]]"
    by (simp add: qv tokens_in_range_def)
  have ec: "shape3 2 4 (dec_emb_dim q) ?ec" by (simp add: qe shape3_iff shape2_iff)
  have s: "0 < (4::nat)" by simp
  obtain outp attention where
    f: "decoder_forward q Inference [[1, 2, 3], [4, 5, 6]] ?ec ?ec = Inr (outp, attention)"
    and sh: "shape3 2 3 4 attention"
    using decoder_forward_shape [OF wq qn trg tt _ _ ec ec, of Inference] by auto
  note st = attention_row_stochastic [OF wq trg ec ec s f]
  have m0: "attention ! 0 \<in> set attention" and m1: "attention ! 1 \<in> set attention"
    using sh by (simp_all add: shape3_def)
  have s0: "shape2 3 4 (attention ! 0)" and s1: "shape2 3 4 (attention ! 1)"
    using sh by (simp_all add: shape3_nth)
  have r0: "attention ! 0 ! 0 \<in> set (attention ! 0)"
    and r1: "attention ! 1 ! 2 \<in> set (attention ! 1)"
    using s0 s1 by (simp_all add: shape2_def)
  have l1: "length (attention ! 1 ! 2) = 4"
    using s1 by (simp add: shape2_def list_all_length)
  have v: "attention ! 1 ! 2 ! 3 \<in> set (attention ! 1 ! 2)"
    using l1 by simp
  have "sum_list (attention ! 0 ! 0) = 1" using st m0 r0 by auto
  moreover have "sum_list (attention ! 1 ! 2) = 1" using st m1 r1 by auto
  moreover have "0 \<le> attention ! 1 ! 2 ! 3" using st m1 r1 v by auto
  ultimately show ?thesis using q f sh by blast
qed

text \<open>
  The claim as stated, at \<open>S = 0\<close>. The decoder is the one the constructor builds (two
  layers, kernel size 3), the target batch has shape \<open>(2, 3)\<close> and the two encoder
  outputs have shape \<open>(2, 0, 8)\<close>: the forward pass returns, its attention tensor has
  shape \<open>(2, 3, 0)\<close>, and the sum of a row is 0.
\<close>

theorem attention_row_stochastic_counterexample:
  "\<exists>q output attention.
     Decoder_init 12 8 16 2 3 0 (\<lambda>name ix. 0) = Inr q \<and>
     wf_decoder q \<and> shape2 2 3 [[1, 2, 3], [4, 5, 6 :: int]] \<and>
     shape3 2 0 (dec_emb_dim q) [[], [] :: real list list] \<and>
     decoder_forward q Inference [[1, 2, 3], [4, 5, 6]] [[], []] [[], []]
       = Inr (output, attention) \<and>
     shape3 2 3 0 attention \<and>
     attention ! 0 ! 0 = [] \<and> sum_list (attention ! 0 ! 0) = 0 \<and>
     sum_list (attention ! 0 ! 0) \<noteq> 1"
proof -
  obtain q where q: "Decoder_init 12 8 16 2 3 0 (\<lambda>name ix. 0) = Inr q"
    by (simp add: Decoder_init_def)
  have wq: "wf_decoder q" and qv: "dec_output_dim q = 12" and qn: "dec_convs q \<noteq> []"
    using Decoder_init_wf [OF q] by auto
  have trg: "shape2 2 3 [[1, 2, 3], [4, 5, 6::int]]" by (simp add: shape2_def)
  have tt: "tokens_in_range (dec_output_dim q) [[1, 2, 3], [4, 5, 6]]"
    by (simp add: qv tokens_in_range_def)
  have ec: "shape3 2 0 (dec_emb_dim q) [[], [] :: real list list]"
    by (simp add: shape3_def shape2_def)
  obtain outp attention where
    f: "decoder_forward q Inference [[1, 2, 3], [4, 5, 6]] [[], []] [[], []]
          = Inr (outp, attention)"
    and sh: "shape3 2 3 0 attention"
    using decoder_forward_shape [OF wq qn trg tt _ _ ec ec, of Inference] by auto
  have "shape2 3 0 (attention ! 0)" using sh by (simp add: shape3_nth)
  then have r: "attention ! 0 ! 0 = []" by (simp add: shape2_def list_all_length)
  then have "sum_list (attention ! 0 ! 0) = 0" "sum_list (attention ! 0 ! 0) \<noteq> 1"
    by simp_all
  with q wq trg ec f sh r show ?thesis by blast
qed

section \<open>Prefixes: what a position of the decoder depends on\<close>

text \<open>
  Two tensors agree on the first \<open>k\<close> positions when they are equal after every
  sequence of positions is cut to its first \<open>k\<close> entries. Every operation of the decoder
  maps tensors that agree on the first \<open>k\<close> positions to tensors that do.
\<close>

lemma map_agree:
  assumes "map g xs = map g ys" and "\<And>x y. g x = g y \<Longrightarrow> h (f x) = h (f y)"
  shows "map h (map f xs) = map h (map f ys)"
proof -
  have len: "length xs = length ys" using assms(1) by (rule map_eq_imp_length_eq)
  have "\<And>i. i < length xs \<Longrightarrow> g (xs ! i) = g (ys ! i)"
    using assms(1) len by (metis nth_map)
  then have "\<And>i. i < length xs \<Longrightarrow> h (f (xs ! i)) = h (f (ys ! i))"
    by (rule assms(2))
  then show ?thesis using len by (simp add: list_eq_iff_nth_eq)
qed

lemma map2_agree:
  assumes "map g xs = map g ys" and "map g' xs' = map g' ys'"
    and "\<And>x y x' y'. g x = g y \<Longrightarrow> g' x' = g' y' \<Longrightarrow> h (f x x') = h (f y y')"
  shows "map h (map2 f xs xs') = map h (map2 f ys ys')"
proof -
  have len: "length xs = length ys" using assms(1) by (rule map_eq_imp_length_eq)
  have len': "length xs' = length ys'" using assms(2) by (rule map_eq_imp_length_eq)
  have a: "\<And>i. i < length xs \<Longrightarrow> g (xs ! i) = g (ys ! i)"
    using assms(1) len by (metis nth_map)
  have b: "\<And>i. i < length xs' \<Longrightarrow> g' (xs' ! i) = g' (ys' ! i)"
    using assms(2) len' by (metis nth_map)
  have "\<And>i. i < length xs \<Longrightarrow> i < length xs'
      \<Longrightarrow> h (f (xs ! i) (xs' ! i)) = h (f (ys ! i) (ys' ! i))"
    by (rule assms(3) [OF a b])
  then show ?thesis using len len' by (simp add: list_eq_iff_nth_eq)
qed

lemma map2_agree_left:
  assumes "map g xs = map g ys"
    and "\<And>z x y. z \<in> set zs \<Longrightarrow> g x = g y \<Longrightarrow> f z x = f z y"
  shows "map2 f zs xs = map2 f zs ys"
proof -
  have len: "length xs = length ys" using assms(1) by (rule map_eq_imp_length_eq)
  have a: "\<And>i. i < length xs \<Longrightarrow> g (xs ! i) = g (ys ! i)"
    using assms(1) len by (metis nth_map)
  have "\<And>i. i < length zs \<Longrightarrow> i < length xs \<Longrightarrow> f (zs ! i) (xs ! i) = f (zs ! i) (ys ! i)"
    by (rule assms(2) [OF nth_mem a])
  then show ?thesis using len by (simp add: list_eq_iff_nth_eq)
qed

lemma take_agree_le:
  assumes "take k x = take k y" and "j \<le> k"
  shows "take j x = take j y"
proof -
  have "take j x = take j (take k x)" using assms(2) by (simp add: min_def)
  also have "\<dots> = take j (take k y)" by (simp only: assms(1))
  also have "\<dots> = take j y" using assms(2) by (simp add: min_def)
  finally show ?thesis .
qed

lemma take_agree_length:
  assumes "take k x = take k y"
  shows "min k (length x) = min k (length y)"
proof -
  have "length (take k x) = length (take k y)" by (simp only: assms)
  then show ?thesis by (simp add: min.commute)
qed

text \<open>Position-major tensors, \<open>[batch][position][feature]\<close>: the rows of a batch element are positions.\<close>

lemma linear_fwd_prefix:
  "map (take k) x = map (take k) y
     \<Longrightarrow> map (take k) (linear_fwd l x) = map (take k) (linear_fwd l y)"
  unfolding linear_fwd_def by (erule map_agree) (simp add: take_map)

lemma softmax_dim2_prefix:
  "map (take k) x = map (take k) y
     \<Longrightarrow> map (take k) (softmax_dim2 x) = map (take k) (softmax_dim2 y)"
  unfolding softmax_dim2_def by (erule map_agree) (simp add: take_map)

lemma mul_scalar_prefix:
  "map (take k) x = map (take k) y
     \<Longrightarrow> map (take k) (mul_scalar x s) = map (take k) (mul_scalar y s)"
  unfolding mul_scalar_def by (erule map_agree) (simp add: take_map)

lemma add3_prefix:
  "map (take k) x = map (take k) y \<Longrightarrow> map (take k) x' = map (take k) y'
     \<Longrightarrow> map (take k) (add3 x x') = map (take k) (add3 y y')"
  unfolding add3_def by (erule (1) map2_agree) (simp add: take_map take_zip)



lemma matmul2_prefix: "take k u = take k v \<Longrightarrow> take k (matmul2 u w) = take k (matmul2 v w)"
  by (simp add: matmul2_def take_map)

lemma matmul_prefix:
  assumes "map (take k) x = map (take k) y"
  shows "map (take k) (matmul x z) = map (take k) (matmul y z)"
proof -
  have len: "length x = length y" using assms by (rule map_eq_imp_length_eq)
  have a: "\<And>i. i < length x \<Longrightarrow> take k (x ! i) = take k (y ! i)"
    using assms len by (metis nth_map)
  show ?thesis
  proof (rule nth_equalityI)
    show "length (map (take k) (matmul x z)) = length (map (take k) (matmul y z))"
      using len by (simp add: matmul_def)
    fix i assume "i < length (map (take k) (matmul x z))"
    then have i: "i < length x" "i < length z" by (simp_all add: matmul_def)
    have "take k (matmul2 (x ! i) (z ! i)) = take k (matmul2 (y ! i) (z ! i))"
      by (rule matmul2_prefix [OF a [OF i(1)]])
    then show "map (take k) (matmul x z) ! i = map (take k) (matmul y z) ! i"
      using i len by (simp add: matmul_def)
  qed
qed

text \<open>Channel-first tensors, \<open>[batch][channel][position]\<close>: the positions run along every channel.\<close>

lemma rows_map_prefix:
  "map (take k) u = map (take k) v \<Longrightarrow> map (take k) (map (map f) u) = map (take k) (map (map f) v)"
  by (rule map_agree [where g = "take k" and h = "take k"]) (simp_all add: take_map)

lemma mul_scalar_prefix_cf:
  assumes "map (map (take k)) x = map (map (take k)) y"
  shows "map (map (take k)) (mul_scalar x s) = map (map (take k)) (mul_scalar y s)"
  unfolding mul_scalar_def
  by (rule map_agree [where g = "map (take k)" and h = "map (take k)", OF assms])
     (rule rows_map_prefix)

lemma rows_map2_prefix:
  "map (take k) u = map (take k) v \<Longrightarrow> map (take k) u' = map (take k) v'
     \<Longrightarrow> map (take k) (map2 (map2 f) u u') = map (take k) (map2 (map2 f) v v')"
  by (rule map2_agree [where g = "take k" and g' = "take k" and h = "take k"])
     (simp_all add: take_map take_zip)

lemma add3_prefix_cf:
  assumes "map (map (take k)) x = map (map (take k)) y"
    and "map (map (take k)) x' = map (map (take k)) y'"
  shows "map (map (take k)) (add3 x x') = map (map (take k)) (add3 y y')"
  unfolding add3_def
  by (rule map2_agree [where g = "map (take k)" and g' = "map (take k)" and h = "map (take k)",
        OF assms]) (rule rows_map2_prefix)

lemma take_upt_min: "take k [0..<n] = [0..<min k n]"
  by (cases "k \<le> n") (simp_all add: min_def)

lemma transpose_m_Cons:
  "transpose_m (r # u) = map (\<lambda>j. map (\<lambda>row. row ! j) (r # u)) [0..<length r]"
  by (simp add: transpose_m_def)

lemma transpose_m_prefix_cf:
  assumes "take k u = take k v" and "0 < k"
  shows "map (take k) (transpose_m u) = map (take k) (transpose_m v)"
proof (cases u)
  case Nil
  with assms have "v = []" by (cases v) auto
  with Nil show ?thesis by simp
next
  case (Cons r u')
  with assms obtain v' where v: "v = r # v'" by (cases v; cases k) auto
  have col: "\<And>j. take k (map (\<lambda>row. row ! j) u) = take k (map (\<lambda>row. row ! j) v)"
    by (simp add: take_map assms(1))
  have "map (take k) (transpose_m u)
      = map (\<lambda>j. take k (map (\<lambda>row. row ! j) u)) [0..<length r]"
    unfolding Cons transpose_m_Cons by simp
  also have "\<dots> = map (\<lambda>j. take k (map (\<lambda>row. row ! j) v)) [0..<length r]"
    by (simp only: col)
  also have "\<dots> = map (take k) (transpose_m v)"
    unfolding v transpose_m_Cons by simp
  finally show ?thesis .
qed

lemma transpose_m_prefix_pm:
  assumes "map (take k) u = map (take k) v"
  shows "take k (transpose_m u) = take k (transpose_m v)"
proof (cases u)
  case Nil
  with assms have "v = []" by simp
  with Nil show ?thesis by simp
next
  case (Cons r u')
  with assms obtain s v' where v: "v = s # v'" and rs: "take k r = take k s"
    by (cases v) auto
  have len: "length u = length v" using assms by (rule map_eq_imp_length_eq)
  have rows: "\<And>i. i < length u \<Longrightarrow> take k (u ! i) = take k (v ! i)"
    using assms len by (metis nth_map)
  have m: "min k (length r) = min k (length s)" using rs by (rule take_agree_length)
  have col: "\<And>j. j < k \<Longrightarrow> map (\<lambda>row. row ! j) u = map (\<lambda>row. row ! j) v"
  proof -
    fix j assume j: "j < k"
    show "map (\<lambda>row. row ! j) u = map (\<lambda>row. row ! j) v"
    proof (rule nth_equalityI)
      show "length (map (\<lambda>row. row ! j) u) = length (map (\<lambda>row. row ! j) v)"
        using len by simp
      fix i assume "i < length (map (\<lambda>row. row ! j) u)"
      then have i: "i < length u" by simp
      have "take k (u ! i) ! j = take k (v ! i) ! j" by (simp only: rows [OF i])
      then show "map (\<lambda>row. row ! j) u ! i = map (\<lambda>row. row ! j) v ! i"
        using i len j by simp
    qed
  qed
  have "take k (transpose_m u) = map (\<lambda>j. map (\<lambda>row. row ! j) u) [0..<min k (length r)]"
    unfolding Cons transpose_m_Cons by (simp add: take_map take_upt_min)
  also have "\<dots> = map (\<lambda>j. map (\<lambda>row. row ! j) v) [0..<min k (length r)]"
  proof (rule map_cong [OF refl])
    fix j assume "j \<in> set [0..<min k (length r)]"
    then have "j < k" by simp
    then show "map (\<lambda>row. row ! j) u = map (\<lambda>row. row ! j) v" by (rule col)
  qed
  also have "\<dots> = take k (transpose_m v)"
    unfolding v transpose_m_Cons by (simp add: take_map take_upt_min m)
  finally show ?thesis .
qed

lemma permute021_prefix_cf:
  assumes "map (take k) x = map (take k) y" and "0 < k"
  shows "map (map (take k)) (permute021 x) = map (map (take k)) (permute021 y)"
  unfolding permute021_def
proof (rule map_agree [where g = "take k" and h = "map (take k)", OF assms(1)])
  fix u v :: "real list list"
  assume "take k u = take k v"
  then show "map (take k) (transpose_m u) = map (take k) (transpose_m v)"
    using assms(2) by (rule transpose_m_prefix_cf)
qed

lemma permute021_prefix_pm:
  assumes "map (map (take k)) x = map (map (take k)) y"
  shows "map (take k) (permute021 x) = map (take k) (permute021 y)"
  unfolding permute021_def
proof (rule map_agree [where g = "map (take k)" and h = "take k", OF assms])
  fix u v :: "real list list"
  assume "map (take k) u = map (take k) v"
  then show "take k (transpose_m u) = take k (transpose_m v)"
    by (rule transpose_m_prefix_pm)
qed

text \<open>
  The convolution of the decoder. The input is padded with \<open>kernel_size - 1\<close> entries
  on the left and with none on the right, and the layer itself pads nothing: the output
  at position \<open>t\<close> is computed from the window of the padded input that starts at
  \<open>t\<close>, which ends with position \<open>t\<close> of the input.
\<close>

lemma zip_take_length: "zip xs (take (length xs) ys) = zip xs ys"
proof -
  have "zip xs ys = take (length xs) (zip xs ys)" by simp
  also have "\<dots> = zip xs (take (length xs) ys)" by (simp only: take_zip) simp
  finally show ?thesis by simp
qed

lemma dot_window:
  assumes "take (t + length w) x = take (t + length w) y"
  shows "dot w (drop t x) = dot w (drop t y)"
proof -
  have "take (length w) (drop t x) = take (length w) (drop t y)"
    using assms by (simp add: take_drop add.commute)
  then have "zip w (take (length w) (drop t x)) = zip w (take (length w) (drop t y))"
    by simp
  then have "zip w (drop t x) = zip w (drop t y)"
    by (simp only: zip_take_length)
  then show ?thesis by (simp add: dot_def)
qed

lemma seq_len_prefix:
  assumes "map (take k) d1 = map (take k) d2"
  shows "min k (seq_len d1) = min k (seq_len d2)"
proof (cases d1)
  case Nil
  with assms have "d2 = []" by simp
  with Nil show ?thesis by simp
next
  case (Cons r d1')
  with assms obtain s d2' where d2: "d2 = s # d2'" and rs: "take k r = take k s"
    by (cases d2) auto
  have "min k (length r) = min k (length s)" using rs by (rule take_agree_length)
  then show ?thesis unfolding Cons d2 by (simp add: seq_len_def)
qed

lemma seq_len_left_pad:
  "0 < n \<Longrightarrow> seq_len (map (\<lambda>r. replicate (n - 1) v @ r) d) + 1 - n = seq_len d"
  by (cases d) (simp_all add: seq_len_def)

lemma conv_at_causal:
  assumes w: "\<And>wc. wc \<in> set w \<Longrightarrow> length wc = n" and n: "0 < n"
    and agree: "map (take k) d1 = map (take k) d2" and t: "t < k"
  shows "conv_at w (map (\<lambda>r. replicate (n - 1) v @ r) d1) t
       = conv_at w (map (\<lambda>r. replicate (n - 1) v @ r) d2) t"
proof -
  let ?lp = "\<lambda>r. replicate (n - 1) v @ r"
  have a: "map (take (Suc t)) d1 = map (take (Suc t)) d2"
  proof -
    have "\<And>x y :: real list. take k x = take k y
        \<Longrightarrow> take (Suc t) (id x) = take (Suc t) (id y)"
    proof -
      fix x y :: "real list"
      assume "take k x = take k y"
      then have "take (Suc t) x = take (Suc t) y"
        by (rule take_agree_le) (use t in simp)
      then show "take (Suc t) (id x) = take (Suc t) (id y)" by simp
    qed
    from map_agree [where f = id and g = "take k" and h = "take (Suc t)", OF agree this]
    show ?thesis by simp
  qed
  have c: "\<And>d. map (take (t + n)) (map ?lp d) = map ?lp (map (take (Suc t)) d)"
  proof -
    fix d :: "real list list"
    show "map (take (t + n)) (map ?lp d) = map ?lp (map (take (Suc t)) d)"
      by (induction d) (use n in simp_all)
  qed
  have b: "map (take (t + n)) (map ?lp d1) = map (take (t + n)) (map ?lp d2)"
    by (simp only: c a)
  have "map2 (\<lambda>wc xc. dot wc (drop t xc)) w (map ?lp d1)
      = map2 (\<lambda>wc xc. dot wc (drop t xc)) w (map ?lp d2)"
  proof (rule map2_agree_left [where g = "take (t + n)", OF b])
    fix z x y :: "real list"
    assume "z \<in> set w" and "take (t + n) x = take (t + n) y"
    then show "dot z (drop t x) = dot z (drop t y)"
      using dot_window [of t z x y] w by simp
  qed
  then show ?thesis by (simp only: conv_at_def)
qed

lemma conv1d_apply_nopad:
  assumes "conv_padding c = 0" and "conv_kernel_size c = n"
  shows "conv1d_apply c x
       = map2 (\<lambda>w b. map (\<lambda>t. conv_at w x t + b) [0..<seq_len x + 1 - n])
           (conv_weight c) (conv_bias c)"
proof -
  have "map (\<lambda>r. replicate 0 0 @ r @ replicate 0 0) x = x" by simp
  then show ?thesis by (simp add: conv1d_apply_def Let_def assms)
qed

lemma take_map2_upt:
  "map (take k) (map2 (\<lambda>w b. map (G w b) [0..<n]) ws bs)
     = map2 (\<lambda>w b. map (G w b) [0..<min k n]) ws bs"
  by (simp add: take_map take_upt_min split_beta)

lemma conv1d_apply_causal:
  assumes wc: "wf_conv cin cout n 0 c" and n: "0 < n"
    and agree: "map (take k) d1 = map (take k) d2"
  shows "map (take k) (conv1d_apply c (map (\<lambda>r. replicate (n - 1) v @ r) d1))
       = map (take k) (conv1d_apply c (map (\<lambda>r. replicate (n - 1) v @ r) d2))"
proof -
  let ?lp = "\<lambda>d. map (\<lambda>r. replicate (n - 1) v @ r) d"
  have ks: "conv_kernel_size c = n" and pd: "conv_padding c = 0"
    and rows: "\<And>w wc. w \<in> set (conv_weight c) \<Longrightarrow> wc \<in> set w \<Longrightarrow> length wc = n"
    using wc by (auto simp: wf_conv_def shape3_iff shape2_iff)
  have m: "min k (seq_len d1) = min k (seq_len d2)" using agree by (rule seq_len_prefix)
  have out: "\<And>d. map (take k) (conv1d_apply c (?lp d))
      = map2 (\<lambda>w b. map (\<lambda>t. conv_at w (?lp d) t + b) [0..<min k (seq_len d)])
          (conv_weight c) (conv_bias c)"
  proof -
    fix d
    have "conv1d_apply c (?lp d)
        = map2 (\<lambda>w b. map (\<lambda>t. conv_at w (?lp d) t + b) [0..<seq_len (?lp d) + 1 - n])
            (conv_weight c) (conv_bias c)"
      using pd ks by (rule conv1d_apply_nopad)
    also have "seq_len (?lp d) + 1 - n = seq_len d" using n by (rule seq_len_left_pad)
    finally show "map (take k) (conv1d_apply c (?lp d))
        = map2 (\<lambda>w b. map (\<lambda>t. conv_at w (?lp d) t + b) [0..<min k (seq_len d)])
            (conv_weight c) (conv_bias c)"
      by (simp only: take_map2_upt)
  qed
  have "map2 (\<lambda>w b. map (\<lambda>t. conv_at w (?lp d1) t + b) [0..<min k (seq_len d1)])
          (conv_weight c) (conv_bias c)
      = map2 (\<lambda>w b. map (\<lambda>t. conv_at w (?lp d2) t + b) [0..<min k (seq_len d1)])
          (conv_weight c) (conv_bias c)"
  proof (rule map_cong [OF refl], clarify)
    fix w b assume "(w, b) \<in> set (zip (conv_weight c) (conv_bias c))"
    then have w: "w \<in> set (conv_weight c)" by (rule set_zip_leftD)
    show "map (\<lambda>t. conv_at w (?lp d1) t + b) [0..<min k (seq_len d1)]
        = map (\<lambda>t. conv_at w (?lp d2) t + b) [0..<min k (seq_len d1)]"
    proof (rule map_cong [OF refl])
      fix t assume "t \<in> set [0..<min k (seq_len d1)]"
      then have t: "t < k" by simp
      show "conv_at w (?lp d1) t + b = conv_at w (?lp d2) t + b"
        using conv_at_causal [OF rows [OF w] n agree t, where v = v] by simp
    qed
  qed
  then show ?thesis by (simp only: out m)
qed

lemma glu_apply_prefix:
  assumes "map (take k) x = map (take k) y"
  shows "map (take k) (glu_apply x) = map (take k) (glu_apply y)"
proof -
  have len: "length x = length y" using assms by (rule map_eq_imp_length_eq)
  have a: "map (take k) (take (length x div 2) x) = map (take k) (take (length x div 2) y)"
    by (simp only: take_map [symmetric] assms)
  have b: "map (take k) (drop (length x div 2) x) = map (take k) (drop (length x div 2) y)"
    by (simp only: drop_map [symmetric] assms)
  show ?thesis
    unfolding glu_apply_def len [symmetric] by (rule rows_map2_prefix [OF a b])
qed

text \<open>The stages, the loop and the forward pass, in inference mode.\<close>

lemma embedding_Inr:
  assumes "embedding table idx = Inr y"
  shows "y = map (map (\<lambda>t. table ! nat t)) idx"
proof (rule traverse_Inr_map [OF assms [unfolded embedding_def]])
  fix x y' assume "traverse (embedding_row table) x = Inr y'"
  then show "y' = map (\<lambda>t. table ! nat t) x"
    by (simp add: traverse_embedding_row split: if_splits)
qed

lemma arange_rows_prefix:
  assumes "map (take k) t1 = map (take k) t2"
  shows "map (take k) (arange_rows t1) = map (take k) (arange_rows t2)"
  unfolding arange_rows_def
proof (rule map_agree [where g = "take k", OF assms])
  fix x y :: "int list"
  assume "take k x = take k y"
  then have "min k (length x) = min k (length y)" by (rule take_agree_length)
  then show "take k (map int [0..<length x]) = take k (map int [0..<length y])"
    by (simp only: take_map take_upt_min)
qed

lemma conv1d_left_pad_causal:
  assumes wc: "wf_conv cin cout n 0 c" and n: "0 < n"
    and agree: "map (map (take k)) d1 = map (map (take k)) d2"
    and r1: "conv1d c (cat_dim2 (full_dim2 (n - 1) v d1) d1) = Inr cv1"
    and r2: "conv1d c (cat_dim2 (full_dim2 (n - 1) v d2) d2) = Inr cv2"
  shows "map (map (take k)) cv1 = map (map (take k)) cv2"
proof -
  let ?lp = "\<lambda>r. replicate (n - 1) v @ r"
  let ?f = "\<lambda>m. conv1d_apply c (map ?lp m)"
  have e: "\<And>d cv. conv1d c (cat_dim2 (full_dim2 (n - 1) v d) d) = Inr cv \<Longrightarrow> cv = map ?f d"
  proof -
    fix d cv
    assume "conv1d c (cat_dim2 (full_dim2 (n - 1) v d) d) = Inr cv"
    then have t: "traverse (conv1d_seq c) (map (map ?lp) d) = Inr cv"
      by (simp only: conv1d_def left_pad_eq)
    have "cv = map (conv1d_apply c) (map (map ?lp) d)"
    proof (rule traverse_Inr_map [OF t])
      fix x y assume "conv1d_seq c x = Inr y"
      then show "y = conv1d_apply c x" by (simp add: conv1d_seq_def split: if_splits)
    qed
    then show "cv = map ?f d" by (simp only: map_map comp_def)
  qed
  have "map (map (take k)) (map ?f d1) = map (map (take k)) (map ?f d2)"
  proof (rule map_agree [where g = "map (take k)", OF agree])
    fix x y :: "real list list"
    assume "map (take k) x = map (take k) y"
    then show "map (take k) (?f x) = map (take k) (?f y)"
      by (rule conv1d_apply_causal [OF wc n])
  qed
  then show ?thesis by (simp only: e [OF r1] e [OF r2])
qed

lemma glu_dim1_prefix:
  assumes agree: "map (map (take k)) cv1 = map (map (take k)) cv2"
    and r1: "glu_dim1 cv1 = Inr g1" and r2: "glu_dim1 cv2 = Inr g2"
  shows "map (map (take k)) g1 = map (map (take k)) g2"
proof -
  have e: "\<And>cv g. glu_dim1 cv = Inr g \<Longrightarrow> g = map glu_apply cv"
  proof -
    fix cv g assume "glu_dim1 cv = Inr g"
    then have t: "traverse glu_seq cv = Inr g" by (simp only: glu_dim1_def)
    show "g = map glu_apply cv"
    proof (rule traverse_Inr_map [OF t])
      fix x y assume "glu_seq x = Inr y"
      then show "y = glu_apply x" by (simp add: glu_seq_def split: if_splits)
    qed
  qed
  have "map (map (take k)) (map glu_apply cv1) = map (map (take k)) (map glu_apply cv2)"
  proof (rule map_agree [where g = "map (take k)", OF agree])
    fix x y :: "real list list"
    assume "map (take k) x = map (take k) y"
    then show "map (take k) (glu_apply x) = map (take k) (glu_apply y)"
      by (rule glu_apply_prefix)
  qed
  then show ?thesis by (simp only: e [OF r1] e [OF r2])
qed

lemma calculate_attention_prefix:
  assumes emb: "map (take k) e1 = map (take k) e2"
    and g: "map (map (take k)) g1 = map (map (take k)) g2"
    and k: "0 < k"
  shows "map (take k) (fst (calculate_attention q e1 g1 ec em))
           = map (take k) (fst (calculate_attention q e2 g2 ec em)) \<and>
         map (map (take k)) (snd (calculate_attention q e1 g1 ec em))
           = map (map (take k)) (snd (calculate_attention q e2 g2 ec em))"
proof -
  define att where "att = (\<lambda>e g. softmax_dim2 (matmul (mul_scalar (add3 e
      (linear_fwd (dec_attn_hid2emb q) (permute021 g))) (dec_scale q)) (permute021 ec)))"
  define res where "res = (\<lambda>e g. mul_scalar (add3 g (permute021
      (linear_fwd (dec_attn_emb2hid q) (matmul (att e g) (add3 ec em))))) (dec_scale q))"
  have f: "\<And>e g. fst (calculate_attention q e g ec em) = att e g"
    and s: "\<And>e g. snd (calculate_attention q e g ec em) = res e g"
    by (simp_all add: calculate_attention_def Let_def att_def res_def)
  have a: "map (take k) (att e1 g1) = map (take k) (att e2 g2)"
    unfolding att_def
    by (intro softmax_dim2_prefix matmul_prefix mul_scalar_prefix add3_prefix emb
          linear_fwd_prefix permute021_prefix_pm g)
  have "map (map (take k)) (res e1 g1) = map (map (take k)) (res e2 g2)"
    unfolding res_def
    by (intro mul_scalar_prefix_cf add3_prefix_cf g permute021_prefix_cf k
          linear_fwd_prefix matmul_prefix a)
  with a show ?thesis by (simp only: f s)
qed

lemma decoder_stage_prefix:
  assumes wc: "wf_conv cin cout (nat (dec_kernel_size q)) 0 conv"
    and emb: "map (take k) e1 = map (take k) e2"
    and x: "map (map (take k)) x1 = map (map (take k)) x2"
    and k: "0 < k"
    and r1: "decoder_stage q Inference i e1 ec em conv x1 = Inr (a1, y1)"
    and r2: "decoder_stage q Inference i e2 ec em conv x2 = Inr (a2, y2)"
  shows "map (take k) a1 = map (take k) a2 \<and> map (map (take k)) y1 = map (map (take k)) y2"
proof -
  let ?n = "nat (dec_kernel_size q)" and ?v = "real_of_int (dec_pad_idx q)"
  have d: "\<And>n z. dropout Inference n z = z" by (simp add: dropout_def)
  from decoder_stage_Inr [OF r1] obtain cv1 g1 where K: "0 < dec_kernel_size q"
    and c1: "conv1d conv (cat_dim2 (full_dim2 (nat (dec_kernel_size q - 1)) ?v x1) x1) = Inr cv1"
    and gl1: "glu_dim1 cv1 = Inr g1"
    and a1: "a1 = fst (calculate_attention q e1 g1 ec em)"
    and y1: "y1 = mul_scalar (add3 (snd (calculate_attention q e1 g1 ec em)) x1) (dec_scale q)"
    unfolding d by auto
  from decoder_stage_Inr [OF r2] obtain cv2 g2 where
    c2: "conv1d conv (cat_dim2 (full_dim2 (nat (dec_kernel_size q - 1)) ?v x2) x2) = Inr cv2"
    and gl2: "glu_dim1 cv2 = Inr g2"
    and a2: "a2 = fst (calculate_attention q e2 g2 ec em)"
    and y2: "y2 = mul_scalar (add3 (snd (calculate_attention q e2 g2 ec em)) x2) (dec_scale q)"
    unfolding d by auto
  have n: "0 < ?n" using K by simp
  have pad: "nat (dec_kernel_size q - 1) = ?n - 1" using K by simp
  have cv: "map (map (take k)) cv1 = map (map (take k)) cv2"
    by (rule conv1d_left_pad_causal [OF wc n x c1 [unfolded pad] c2 [unfolded pad]])
  have gg: "map (map (take k)) g1 = map (map (take k)) g2"
    by (rule glu_dim1_prefix [OF cv gl1 gl2])
  note ca = calculate_attention_prefix [OF emb gg k, of q ec em]
  have "map (map (take k)) y1 = map (map (take k)) y2"
    unfolding y1 y2 by (intro mul_scalar_prefix_cf add3_prefix_cf x conjunct2 [OF ca])
  moreover have "map (take k) a1 = map (take k) a2"
    unfolding a1 a2 by (rule conjunct1 [OF ca])
  ultimately show ?thesis by simp
qed

lemma decoder_loop_prefix:
  assumes emb: "map (take k) e1 = map (take k) e2" and k: "0 < k"
  shows "\<forall>conv\<in>set convs. wf_conv cin cout (nat (dec_kernel_size q)) 0 conv
     \<Longrightarrow> map (map (take k)) x1 = map (map (take k)) x2
     \<Longrightarrow> decoder_loop q Inference i e1 ec em convs x1 b1 = Inr (Some (a1, c1))
     \<Longrightarrow> decoder_loop q Inference i e2 ec em convs x2 b2 = Inr (Some (a2, c2))
     \<Longrightarrow> (\<And>a1' c1' a2' c2'. b1 = Some (a1', c1') \<Longrightarrow> b2 = Some (a2', c2')
           \<Longrightarrow> map (take k) a1' = map (take k) a2' \<and>
               map (map (take k)) c1' = map (map (take k)) c2')
     \<Longrightarrow> map (take k) a1 = map (take k) a2 \<and> map (map (take k)) c1 = map (map (take k)) c2"
proof (induction convs arbitrary: i x1 x2 b1 b2)
  case Nil
  from Nil.prems(3,4) have "b1 = Some (a1, c1)" "b2 = Some (a2, c2)" by simp_all
  then show ?case by (rule Nil.prems(5))
next
  case (Cons conv convs)
  from Cons.prems(1) have wc: "wf_conv cin cout (nat (dec_kernel_size q)) 0 conv"
    and wcs: "\<forall>conv\<in>set convs. wf_conv cin cout (nat (dec_kernel_size q)) 0 conv"
    by simp_all
  from Cons.prems(3) obtain s1 y1 where
    st1: "decoder_stage q Inference i e1 ec em conv x1 = Inr (s1, y1)"
    and lp1: "decoder_loop q Inference (Suc i) e1 ec em convs y1 (Some (s1, y1)) = Inr (Some (a1, c1))"
    by (auto split: sum.splits)
  from Cons.prems(4) obtain s2 y2 where
    st2: "decoder_stage q Inference i e2 ec em conv x2 = Inr (s2, y2)"
    and lp2: "decoder_loop q Inference (Suc i) e2 ec em convs y2 (Some (s2, y2)) = Inr (Some (a2, c2))"
    by (auto split: sum.splits)
  note st = decoder_stage_prefix [OF wc emb Cons.prems(2) k st1 st2]
  show ?case
  proof (rule Cons.IH [OF wcs conjunct2 [OF st] lp1 lp2])
    fix a1' c1' a2' c2'
    assume "Some (s1, y1) = Some (a1', c1')" "Some (s2, y2) = Some (a2', c2')"
    then show "map (take k) a1' = map (take k) a2' \<and>
               map (map (take k)) c1' = map (map (take k)) c2'"
      using st by simp
  qed
qed

lemma decoder_forward_Inr:
  assumes "decoder_forward q Inference trg ec em = Inr (out, att)"
  shows "\<exists>te pe cv. embedding (dec_tok_embedding q) trg = Inr te \<and>
           embedding (dec_pos_embedding q) (arange_rows trg) = Inr pe \<and>
           decoder_loop q Inference 0 (add3 te pe) ec em (dec_convs q)
             (permute021 (linear_fwd (dec_emb2hid q) (add3 te pe))) None = Inr (Some (att, cv)) \<and>
           out = linear_fwd (dec_out q) (linear_fwd (dec_hid2emb q) (permute021 cv))"
  using assms
  by (auto simp: decoder_forward_def Let_def dropout_def
        split: sum.splits option.splits prod.splits)

lemma decoder_forward_prefix:
  assumes wf: "wf_decoder q" and k: "0 < k"
    and agree: "map (take k) trg1 = map (take k) trg2"
    and r1: "decoder_forward q Inference trg1 ec em = Inr (out1, att1)"
    and r2: "decoder_forward q Inference trg2 ec em = Inr (out2, att2)"
  shows "map (take k) out1 = map (take k) out2 \<and> map (take k) att1 = map (take k) att2"
proof -
  from decoder_forward_Inr [OF r1] obtain te1 pe1 cv1 where
    te1: "embedding (dec_tok_embedding q) trg1 = Inr te1"
    and pe1: "embedding (dec_pos_embedding q) (arange_rows trg1) = Inr pe1"
    and lp1: "decoder_loop q Inference 0 (add3 te1 pe1) ec em (dec_convs q)
             (permute021 (linear_fwd (dec_emb2hid q) (add3 te1 pe1))) None = Inr (Some (att1, cv1))"
    and o1: "out1 = linear_fwd (dec_out q) (linear_fwd (dec_hid2emb q) (permute021 cv1))"
    by blast
  from decoder_forward_Inr [OF r2] obtain te2 pe2 cv2 where
    te2: "embedding (dec_tok_embedding q) trg2 = Inr te2"
    and pe2: "embedding (dec_pos_embedding q) (arange_rows trg2) = Inr pe2"
    and lp2: "decoder_loop q Inference 0 (add3 te2 pe2) ec em (dec_convs q)
             (permute021 (linear_fwd (dec_emb2hid q) (add3 te2 pe2))) None = Inr (Some (att2, cv2))"
    and o2: "out2 = linear_fwd (dec_out q) (linear_fwd (dec_hid2emb q) (permute021 cv2))"
    by blast
  have te: "map (take k) te1 = map (take k) te2"
    unfolding embedding_Inr [OF te1] embedding_Inr [OF te2]
    using agree by (rule rows_map_prefix)
  have pe: "map (take k) pe1 = map (take k) pe2"
    unfolding embedding_Inr [OF pe1] embedding_Inr [OF pe2]
    by (rule rows_map_prefix [OF arange_rows_prefix [OF agree]])
  have emb: "map (take k) (add3 te1 pe1) = map (take k) (add3 te2 pe2)"
    by (rule add3_prefix [OF te pe])
  have ci: "map (map (take k)) (permute021 (linear_fwd (dec_emb2hid q) (add3 te1 pe1)))
          = map (map (take k)) (permute021 (linear_fwd (dec_emb2hid q) (add3 te2 pe2)))"
    by (rule permute021_prefix_cf [OF linear_fwd_prefix [OF emb] k])
  from wf have wcs: "\<forall>conv\<in>set (dec_convs q).
      wf_conv (dec_hid_dim q) (2 * dec_hid_dim q) (nat (dec_kernel_size q)) 0 conv"
    by (simp add: wf_decoder_def list_all_iff)
  have none: "\<And>a1' c1' a2' c2'. (None :: (tensor3 \<times> tensor3) option) = Some (a1', c1')
      \<Longrightarrow> (None :: (tensor3 \<times> tensor3) option) = Some (a2', c2')
      \<Longrightarrow> map (take k) a1' = map (take k) a2' \<and> map (map (take k)) c1' = map (map (take k)) c2'"
    by simp
  note lp = decoder_loop_prefix [OF emb k wcs ci lp1 lp2 none]
  have "map (take k) out1 = map (take k) out2"
    unfolding o1 o2
    by (intro linear_fwd_prefix permute021_prefix_pm conjunct2 [OF lp])
  with lp show ?thesis by simp
qed

section \<open>Causality of the decoder\<close>

lemma prefix_of_entries:
  assumes "length x = b" and "length y = b"
    and "\<forall>n<b. length (x ! n) = t \<and> length (y ! n) = t"
    and "\<forall>n<b. \<forall>i<k. x ! n ! i = y ! n ! i"
  shows "map (take k) x = map (take k) y"
proof (rule nth_equalityI)
  show "length (map (take k) x) = length (map (take k) y)" using assms(1,2) by simp
next
  fix n assume "n < length (map (take k) x)"
  then have n: "n < b" using assms(1) by simp
  have "take k (x ! n) = take k (y ! n)"
  proof (rule nth_equalityI)
    show "length (take k (x ! n)) = length (take k (y ! n))" using assms(3) n by simp
  next
    fix i assume "i < length (take k (x ! n))"
    then have "i < k" by simp
    then show "take k (x ! n) ! i = take k (y ! n) ! i" using assms(4) n by simp
  qed
  then show "map (take k) x ! n = map (take k) y ! n" using n assms(1,2) by simp
qed

lemma entries_of_prefix:
  assumes "map (take k) x = map (take k) y" and "n < length x" and "i < k"
  shows "x ! n ! i = y ! n ! i"
proof -
  have len: "length x = length y" using assms(1) by (rule map_eq_imp_length_eq)
  have "map (take k) x ! n = map (take k) y ! n" by (simp only: assms(1))
  then have "take k (x ! n) = take k (y ! n)" using assms(2) len by simp
  then have "take k (x ! n) ! i = take k (y ! n) ! i" by simp
  then show ?thesis using assms(3) by simp
qed

text \<open>
  Claim C1. For a well-formed decoder with at least one layer, in inference mode
  (dropout disabled), for two encoder outputs of shape \<open>(b, s, emb_dim)\<close> and two
  target batches of the same shape \<open>(b, t)\<close>, \<open>t \<le> 100\<close>, with token ids inside the
  vocabulary, that agree on the positions \<open>0 .. k - 1\<close> of every row, where
  \<open>1 \<le> k \<le> t\<close>: both forward passes return logits of shape \<open>(b, t, output_dim)\<close>,
  and the logits are equal at every position below \<open>k\<close>, in particular at \<open>k - 1\<close>,
  whatever the tokens at the positions from \<open>k\<close> on are. The reason is the padding of
  the convolution, on the left only (\<open>conv1d_apply_causal\<close>); every other operation of
  the decoder works on each target position by itself.
\<close>

theorem decoder_causality:
  assumes "wf_decoder q" and "dec_convs q \<noteq> []"
    and "shape2 b t trg1" and "tokens_in_range (dec_output_dim q) trg1"
    and "shape2 b t trg2" and "tokens_in_range (dec_output_dim q) trg2"
    and "t \<le> 100"
    and "shape3 b s (dec_emb_dim q) encoder_conved"
    and "shape3 b s (dec_emb_dim q) encoder_combined"
    and "0 < k" and "k \<le> t"
    and "\<forall>n<b. \<forall>i<k. trg1 ! n ! i = trg2 ! n ! i"
  shows "\<exists>output1 attention1 output2 attention2.
           decoder_forward q Inference trg1 encoder_conved encoder_combined
             = Inr (output1, attention1) \<and>
           decoder_forward q Inference trg2 encoder_conved encoder_combined
             = Inr (output2, attention2) \<and>
           shape3 b t (dec_output_dim q) output1 \<and> shape3 b t (dec_output_dim q) output2 \<and>
           (\<forall>n<b. \<forall>i<k. output1 ! n ! i = output2 ! n ! i)"
proof -
  have t: "0 < t" using assms(10,11) by simp
  obtain o1 a1 where r1: "decoder_forward q Inference trg1 encoder_conved encoder_combined
        = Inr (o1, a1)" and s1: "shape3 b t (dec_output_dim q) o1"
    using decoder_forward_shape [OF assms(1,2,3,4) t assms(7,8,9), of Inference] by blast
  obtain o2 a2 where r2: "decoder_forward q Inference trg2 encoder_conved encoder_combined
        = Inr (o2, a2)" and s2: "shape3 b t (dec_output_dim q) o2"
    using decoder_forward_shape [OF assms(1,2,5,6) t assms(7,8,9), of Inference] by blast
  have l1: "length trg1 = b" and l2: "length trg2 = b"
    and rows: "\<forall>n<b. length (trg1 ! n) = t \<and> length (trg2 ! n) = t"
    using assms(3,5) by (simp_all add: shape2_def list_all_length)
  have agree: "map (take k) trg1 = map (take k) trg2"
    by (rule prefix_of_entries [OF l1 l2 rows assms(12)])
  have pre: "map (take k) o1 = map (take k) o2"
    by (rule conjunct1 [OF decoder_forward_prefix [OF assms(1,10) agree r1 r2]])
  have "length o1 = b" using s1 by (simp add: shape3_def)
  then have "\<forall>n<b. \<forall>i<k. o1 ! n ! i = o2 ! n ! i"
    using entries_of_prefix [OF pre] by simp
  with r1 r2 s1 s2 show ?thesis by blast
qed

theorem decoder_causality_witness:
  "\<exists>q output1 attention1 output2 attention2.
     Decoder_init 12 8 16 2 3 0 (\<lambda>name ix. real (length name + sum_list ix) / 10) = Inr q \<and>
     decoder_forward q Inference [[1, 2, 3], [4, 5, 6]]
       (replicate 2 (replicate 4 (replicate 8 1))) (replicate 2 (replicate 4 (replicate 8 2)))
       = Inr (output1, attention1) \<and>
     decoder_forward q Inference [[1, 2, 9], [4, 5, 0]]
       (replicate 2 (replicate 4 (replicate 8 1))) (replicate 2 (replicate 4 (replicate 8 2)))
       = Inr (output2, attention2) \<and>
     shape3 2 3 12 output1 \<and> shape3 2 3 12 output2 \<and>
     output1 ! 0 ! 1 = output2 ! 0 ! 1 \<and> output1 ! 1 ! 1 = output2 ! 1 ! 1 \<and>
     output1 ! 0 ! 0 = output2 ! 0 ! 0 \<and> output1 ! 1 ! 0 = output2 ! 1 ! 0"
proof -
  let ?ec = "replicate 2 (replicate 4 (replicate 8 (1::real)))"
  let ?em = "replicate 2 (replicate 4 (replicate 8 (2::real)))"
  obtain q where
    q: "Decoder_init 12 8 16 2 3 0 (\<lambda>name ix. real (length name + sum_list ix) / 10) = Inr q"
    by (simp add: Decoder_init_def)
  have wq: "wf_decoder q" and qv: "dec_output_dim q = 12" and qe: "dec_emb_dim q = 8"
    and qn: "dec_convs q \<noteq> []"
    using Decoder_init_wf [OF q] by auto
  have trg1: "shape2 2 3 [[1, 2, 3], [4, 5, 6::int]]"
    and trg2: "shape2 2 3 [[1, 2, 9], [4, 5, 0::int]]"
    by (simp_all add: shape2_def)
  have tt1: "tokens_in_range (dec_output_dim q) [[1, 2, 3], [4, 5, 6]]"
    and tt2: "tokens_in_range (dec_output_dim q) [[1, 2, 9], [4, 5, 0]]"
    by (simp_all add: qv tokens_in_range_def)
  have ec: "shape3 2 4 (dec_emb_dim q) ?ec" and em: "shape3 2 4 (dec_emb_dim q) ?em"
    by (simp_all add: qe shape3_iff shape2_iff)
  have t: "(3::nat) \<le> 100" and k: "0 < (2::nat)" "(2::nat) \<le> 3" by simp_all
  have agree: "\<forall>n<2. \<forall>i<2. [[1, 2, 3], [4, 5, 6::int]] ! n ! i = [[1, 2, 9], [4, 5, 0]] ! n ! i"
    by (simp add: numeral_2_eq_2 less_Suc_eq)
  from decoder_causality [OF wq qn trg1 tt1 trg2 tt2 t ec em k agree]
  obtain o1 a1 o2 a2 where
    r1: "decoder_forward q Inference [[1, 2, 3], [4, 5, 6]] ?ec ?em = Inr (o1, a1)"
    and r2: "decoder_forward q Inference [[1, 2, 9], [4, 5, 0]] ?ec ?em = Inr (o2, a2)"
    and s1: "shape3 2 3 (dec_output_dim q) o1" and s2: "shape3 2 3 (dec_output_dim q) o2"
    and eq: "\<forall>n<2. \<forall>i<2. o1 ! n ! i = o2 ! n ! i"
    by blast
  have "o1 ! 0 ! 1 = o2 ! 0 ! 1" "o1 ! 1 ! 1 = o2 ! 1 ! 1"
    "o1 ! 0 ! 0 = o2 ! 0 ! 0" "o1 ! 1 ! 0 = o2 ! 1 ! 0"
    using eq by simp_all
  with q r1 r2 s1 s2 show ?thesis unfolding qv by blast
qed

section \<open>The input of the residual connection\<close>

text \<open>
  Claim C9. A stage of the decoder that returns has convolved the left-padded input
  after dropout, and its residual sum adds that same tensor, the input after dropout,
  to the result of the attention; so the stage reads its input through dropout only:
  two inputs that dropout maps to the same tensor give the same result. A stage of the
  encoder that returns has convolved the input after dropout, and its residual sum adds
  the input of the stage itself, from before dropout. In inference mode dropout is the
  identity, so the two formulations coincide: the stage of the decoder equals the stage
  written with the residual of the encoder, \<open>decoder_stage_residual_before_dropout\<close>,
  on every input.
\<close>

theorem residual_input_asymmetry:
  "(decoder_stage q dm i embedded ec em conv x = Inr (a, y) \<longrightarrow>
      (\<exists>cv g. conv1d conv (cat_dim2 (full_dim2 (nat (dec_kernel_size q - 1))
                               (real_of_int (dec_pad_idx q)) (dropout dm (Suc i) x))
                          (dropout dm (Suc i) x)) = Inr cv \<and>
         glu_dim1 cv = Inr g \<and>
         a = fst (calculate_attention q embedded g ec em) \<and>
         y = mul_scalar (add3 (snd (calculate_attention q embedded g ec em))
                           (dropout dm (Suc i) x)) (dec_scale q))) \<and>
   (dropout dm (Suc i) x = dropout dm (Suc i) xb \<longrightarrow>
      decoder_stage q dm i embedded ec em conv x = decoder_stage q dm i embedded ec em conv xb) \<and>
   (encoder_stage dm i' scale conv' x' = Inr y' \<longrightarrow>
      (\<exists>cv g. conv1d conv' (dropout dm (Suc i') x') = Inr cv \<and> glu_dim1 cv = Inr g \<and>
         y' = mul_scalar (add3 g x') scale)) \<and>
   dropout Inference (Suc i) x = x \<and>
   decoder_stage q Inference i embedded ec em conv x
     = decoder_stage_residual_before_dropout q Inference i embedded ec em conv x"
proof (intro conjI impI)
  assume "decoder_stage q dm i embedded ec em conv x = Inr (a, y)"
  from decoder_stage_Inr [OF this]
  show "\<exists>cv g. conv1d conv (cat_dim2 (full_dim2 (nat (dec_kernel_size q - 1))
                               (real_of_int (dec_pad_idx q)) (dropout dm (Suc i) x))
                          (dropout dm (Suc i) x)) = Inr cv \<and>
         glu_dim1 cv = Inr g \<and>
         a = fst (calculate_attention q embedded g ec em) \<and>
         y = mul_scalar (add3 (snd (calculate_attention q embedded g ec em))
                           (dropout dm (Suc i) x)) (dec_scale q)"
    by auto
next
  assume "dropout dm (Suc i) x = dropout dm (Suc i) xb"
  then show "decoder_stage q dm i embedded ec em conv x
      = decoder_stage q dm i embedded ec em conv xb"
    by (simp add: decoder_stage_def Let_def)
next
  assume "encoder_stage dm i' scale conv' x' = Inr y'"
  from encoder_stage_Inr [OF this]
  show "\<exists>cv g. conv1d conv' (dropout dm (Suc i') x') = Inr cv \<and> glu_dim1 cv = Inr g \<and>
         y' = mul_scalar (add3 g x') scale"
    by auto
next
  show "dropout Inference (Suc i) x = x" by (simp add: dropout_def)
next
  show "decoder_stage q Inference i embedded ec em conv x
     = decoder_stage_residual_before_dropout q Inference i embedded ec em conv x"
    by (simp add: decoder_stage_def decoder_stage_residual_before_dropout_def dropout_def Let_def)
qed

text \<open>
  The asymmetry is observable in training mode. The modules are the ones the
  constructors build with all dimensions 1, one layer, kernel size 1 and parameters 0;
  the mask of the dropout is 0, so dropout maps the inputs 1 and 2 to the same tensor.
  The stage of the decoder adds the input after dropout and returns 0 for both inputs;
  written with the residual of the encoder it would return \<open>sqrt 0.5\<close> for the input
  1, which is what the stage of the encoder returns, and the stage of the encoder tells
  the two inputs apart. In inference mode the two stages of the decoder agree.
\<close>

theorem residual_input_asymmetry_witness:
  "\<exists>q conv p conv'.
     Decoder_init 1 1 1 1 1 0 (\<lambda>name ix. 0) = Inr q \<and> dec_convs q = [conv] \<and>
     Encoder_init 1 1 1 1 1 (\<lambda>name ix. 0) = Inr p \<and> enc_convs p = [conv'] \<and>
     decoder_stage q (Training (\<lambda>n b i j. 0)) 0 [[[0]]] [[[0]]] [[[0]]] conv [[[1]]]
       = Inr ([[[1]]], [[[0]]]) \<and>
     (\<exists>cv g. conv1d conv (cat_dim2 (full_dim2 (nat (dec_kernel_size q - 1))
                  (real_of_int (dec_pad_idx q))
                  (dropout (Training (\<lambda>n b i j. 0)) (Suc 0) [[[1]]]))
                (dropout (Training (\<lambda>n b i j. 0)) (Suc 0) [[[1]]])) = Inr cv \<and>
        glu_dim1 cv = Inr g \<and>
        [[[0]]] = mul_scalar (add3 (snd (calculate_attention q [[[0]]] g [[[0]]] [[[0]]]))
                     (dropout (Training (\<lambda>n b i j. 0)) (Suc 0) [[[1]]])) (dec_scale q)) \<and>
     dropout (Training (\<lambda>n b i j. 0)) (Suc 0) [[[1]]] = [[[0]]] \<and>
     dropout (Training (\<lambda>n b i j. 0)) (Suc 0) [[[2]]] = [[[0]]] \<and>
     decoder_stage q (Training (\<lambda>n b i j. 0)) 0 [[[0]]] [[[0]]] [[[0]]] conv [[[1]]]
       = decoder_stage q (Training (\<lambda>n b i j. 0)) 0 [[[0]]] [[[0]]] [[[0]]] conv [[[2]]] \<and>
     decoder_stage_residual_before_dropout q (Training (\<lambda>n b i j. 0)) 0
         [[[0]]] [[[0]]] [[[0]]] conv [[[1]]]
       = Inr ([[[1]]], [[[sqrt 0.5]]]) \<and>
     encoder_stage (Training (\<lambda>n b i j. 0)) 0 (enc_scale p) conv' [[[1]]]
       = Inr [[[sqrt 0.5]]] \<and>
     encoder_stage (Training (\<lambda>n b i j. 0)) 0 (enc_scale p) conv' [[[2]]]
       = Inr [[[2 * sqrt 0.5]]] \<and>
     encoder_stage (Training (\<lambda>n b i j. 0)) 0 (enc_scale p) conv' [[[1]]]
       \<noteq> encoder_stage (Training (\<lambda>n b i j. 0)) 0 (enc_scale p) conv' [[[2]]] \<and>
     (\<exists>cv g. conv1d conv' (dropout (Training (\<lambda>n b i j. 0)) (Suc 0) [[[1]]]) = Inr cv \<and>
        glu_dim1 cv = Inr g \<and> [[[sqrt 0.5]]] = mul_scalar (add3 g [[[1]]]) (enc_scale p)) \<and>
     decoder_stage q Inference 0 [[[0]]] [[[0]]] [[[0]]] conv [[[1]]]
       = decoder_stage_residual_before_dropout q Inference 0 [[[0]]] [[[0]]] [[[0]]] conv [[[1]]]"
proof -
  let ?dm = "Training (\<lambda>n b i j. 0)"
  have d: "\<exists>q conv. Decoder_init 1 1 1 1 1 0 (\<lambda>name ix. 0) = Inr q \<and> dec_convs q = [conv] \<and>
     decoder_stage q ?dm 0 [[[0]]] [[[0]]] [[[0]]] conv [[[1]]] = Inr ([[[1]]], [[[0]]]) \<and>
     decoder_stage_residual_before_dropout q ?dm 0 [[[0]]] [[[0]]] [[[0]]] conv [[[1]]]
       = Inr ([[[1]]], [[[sqrt 0.5]]])"
    by (simp add: Decoder_init_def decoder_stage_def decoder_stage_residual_before_dropout_def
        dropout_def apply_mask_def full_dim2_def cat_dim2_def conv1d_def conv1d_seq_def
        conv1d_apply_def conv_at_def dot_def seq_len_def glu_dim1_def glu_seq_def glu_apply_def
        calculate_attention_def linear_fwd_def linear_vec_def permute021_def transpose_m_def
        add3_def mul_scalar_def matmul_def matmul2_def softmax_dim2_def softmax_def
        nn_Conv1d_def nn_Linear_def nn_Embedding_def sigmoid_def Let_def numeral_2_eq_2)
  have e: "\<exists>p conv. Encoder_init 1 1 1 1 1 (\<lambda>name ix. 0) = Inr p \<and> enc_convs p = [conv] \<and>
     encoder_stage ?dm 0 (enc_scale p) conv [[[1]]] = Inr [[[sqrt 0.5]]] \<and>
     encoder_stage ?dm 0 (enc_scale p) conv [[[2]]] = Inr [[[2 * sqrt 0.5]]] \<and>
     encoder_stage ?dm 0 (enc_scale p) conv [[[1]]]
       \<noteq> encoder_stage ?dm 0 (enc_scale p) conv [[[2]]]"
    by (simp add: Encoder_init_def encoder_stage_def
        dropout_def apply_mask_def conv1d_def conv1d_seq_def
        conv1d_apply_def conv_at_def dot_def seq_len_def glu_dim1_def glu_seq_def glu_apply_def
        add3_def mul_scalar_def
        nn_Conv1d_def nn_Linear_def nn_Embedding_def sigmoid_def Let_def numeral_2_eq_2)
  from d obtain q conv where q: "Decoder_init 1 1 1 1 1 0 (\<lambda>name ix. 0) = Inr q"
    and qc: "dec_convs q = [conv]"
    and ds: "decoder_stage q ?dm 0 [[[0]]] [[[0]]] [[[0]]] conv [[[1]]] = Inr ([[[1]]], [[[0]]])"
    and dv: "decoder_stage_residual_before_dropout q ?dm 0 [[[0]]] [[[0]]] [[[0]]] conv [[[1]]]
       = Inr ([[[1]]], [[[sqrt 0.5]]])"
    by blast
  from e obtain p conv' where p: "Encoder_init 1 1 1 1 1 (\<lambda>name ix. 0) = Inr p"
    and pc: "enc_convs p = [conv']"
    and es: "encoder_stage ?dm 0 (enc_scale p) conv' [[[1]]] = Inr [[[sqrt 0.5]]]"
    and es2: "encoder_stage ?dm 0 (enc_scale p) conv' [[[2]]] = Inr [[[2 * sqrt 0.5]]]"
    and ne: "encoder_stage ?dm 0 (enc_scale p) conv' [[[1]]]
       \<noteq> encoder_stage ?dm 0 (enc_scale p) conv' [[[2]]]"
    by blast
  have dr: "dropout ?dm (Suc 0) [[[1]]] = [[[0]]]" and dr2: "dropout ?dm (Suc 0) [[[2]]] = [[[0]]]"
    by (simp_all add: dropout_def apply_mask_def)
  have dd: "dropout ?dm (Suc 0) [[[1]]] = dropout ?dm (Suc 0) [[[2]]]"
    by (simp only: dr dr2)
  note t = residual_input_asymmetry [where q = q and dm = ?dm and i = 0
      and embedded = "[[[0]]]" and ec = "[[[0]]]" and em = "[[[0]]]" and conv = conv
      and x = "[[[1]]]" and xb = "[[[2]]]" and a = "[[[1]]]" and y = "[[[0]]]"
      and i' = 0 and scale = "enc_scale p" and conv' = conv' and x' = "[[[1]]]"
      and y' = "[[[sqrt 0.5]]]"]
  have t1: "\<exists>cv g. conv1d conv (cat_dim2 (full_dim2 (nat (dec_kernel_size q - 1))
                  (real_of_int (dec_pad_idx q)) (dropout ?dm (Suc 0) [[[1]]]))
                (dropout ?dm (Suc 0) [[[1]]])) = Inr cv \<and>
        glu_dim1 cv = Inr g \<and>
        [[[0]]] = mul_scalar (add3 (snd (calculate_attention q [[[0]]] g [[[0]]] [[[0]]]))
                     (dropout ?dm (Suc 0) [[[1]]])) (dec_scale q)"
    using t [THEN conjunct1, THEN mp, OF ds] by blast
  have t2: "decoder_stage q ?dm 0 [[[0]]] [[[0]]] [[[0]]] conv [[[1]]]
       = decoder_stage q ?dm 0 [[[0]]] [[[0]]] [[[0]]] conv [[[2]]]"
    using t [THEN conjunct2, THEN conjunct1, THEN mp, OF dd] .
  have t3: "\<exists>cv g. conv1d conv' (dropout ?dm (Suc 0) [[[1]]]) = Inr cv \<and>
        glu_dim1 cv = Inr g \<and> [[[sqrt 0.5]]] = mul_scalar (add3 g [[[1]]]) (enc_scale p)"
    using t [THEN conjunct2, THEN conjunct2, THEN conjunct1, THEN mp, OF es] by blast
  have t5: "decoder_stage q Inference 0 [[[0]]] [[[0]]] [[[0]]] conv [[[1]]]
       = decoder_stage_residual_before_dropout q Inference 0 [[[0]]] [[[0]]] [[[0]]] conv [[[1]]]"
    using t [THEN conjunct2, THEN conjunct2, THEN conjunct2, THEN conjunct2] .
  from q qc p pc ds t1 dr dr2 t2 dv es es2 ne t3 t5 show ?thesis by blast
qed

end
